theory Spec2Isabelle
  imports Main "HOL-Library.Word" "HOL-Library.Multiset" "HOL-Library.AList"
    "HOL-Library.Char_ord" "HOL-Library.List_Lexorder"
begin

unbundle bit_operations_syntax

section \<open>Python values the controller handles\<close>

text \<open>
  The records of a batch are the dictionaries a JSON decoder builds
  (\<^verbatim>\<open>List[dict[str, Any]]\<close>). A dictionary is an association list in insertion
  order, its keys are strings. A character of a \<open>string\<close> stands for the code point
  of the same number (0 to 255). A float is kept as the text \<^verbatim>\<open>float.__repr__\<close> prints
  for it, which is all this program reads of a float.
\<close>

datatype json =
    JNull
  | JBool bool
  | JInt int
  | JFloat string
  | JStr string
  | JList "json list"
  | JDict "(string \<times> json) list"

datatype py_error =
    KeyError string
  | TypeError
  | ParseError string
  | ClientError string
  | BotoCoreError string

type_synonym 'a result = "py_error + 'a"

text \<open>\<^verbatim>\<open>d.get(k)\<close> on a dictionary.\<close>

definition dict_get :: "(string \<times> 'v) list \<Rightarrow> string \<Rightarrow> 'v option" where
  "dict_get d k = map_of d k"

text \<open>\<^verbatim>\<open>o[k]\<close> with a string key: KeyError on a dictionary without the key,
  TypeError on every other value.\<close>

fun subscript :: "json \<Rightarrow> string \<Rightarrow> json result" where
  "subscript (JDict d) k = (case map_of d k of None \<Rightarrow> Inl (KeyError k) | Some v \<Rightarrow> Inr v)"
| "subscript _ k = Inl TypeError"

text \<open>The truth value of \<^verbatim>\<open>if o:\<close>.\<close>

fun truthy :: "json \<Rightarrow> bool" where
  "truthy JNull = False"
| "truthy (JBool b) = b"
| "truthy (JInt i) = (i \<noteq> 0)"
| "truthy (JFloat r) = (r \<noteq> ''0.0'' \<and> r \<noteq> ''-0.0'')"
| "truthy (JStr s) = (s \<noteq> [])"
| "truthy (JList xs) = (xs \<noteq> [])"
| "truthy (JDict d) = (d \<noteq> [])"

text \<open>\<^verbatim>\<open>s.split(sep)\<close> for a one-character separator: never the empty list.\<close>

fun str_split :: "char \<Rightarrow> string \<Rightarrow> string list" where
  "str_split sep [] = [[]]"
| "str_split sep (c # cs) =
     (if c = sep then [] # str_split sep cs
      else (case str_split sep cs of [] \<Rightarrow> [[c]] | w # ws \<Rightarrow> (c # w) # ws))"

text \<open>\<^verbatim>\<open>sep.join(xs)\<close>.\<close>

fun join :: "string \<Rightarrow> string list \<Rightarrow> string" where
  "join sep [] = []"
| "join sep [x] = x"
| "join sep (x # y # ys) = x @ sep @ join sep (y # ys)"

text \<open>\<^verbatim>\<open>str(i)\<close> of an integer.\<close>

definition digit_char :: "nat \<Rightarrow> char" where
  "digit_char d = char_of (48 + d)"

function str_nat :: "nat \<Rightarrow> string" where
  "str_nat n = (if n < 10 then [digit_char n] else str_nat (n div 10) @ [digit_char (n mod 10)])"
  by pat_completeness auto
termination
  by (relation "measure id") auto

definition str_int :: "int \<Rightarrow> string" where
  "str_int i = (if i < 0 then CHR ''-'' # str_nat (nat (- i)) else str_nat (nat i))"

section \<open>json.dumps(records, sort\_keys=True)\<close>

definition hex_char :: "nat \<Rightarrow> char" where
  "hex_char d = (if d < 10 then char_of (48 + d) else char_of (87 + d))"

text \<open>One character of a string literal: the two-character escapes, a backslash with u00 and two hex
  digits for every other character outside space..tilde, the character itself otherwise.\<close>

definition escape_char :: "char \<Rightarrow> string" where
  "escape_char c =
     (if c = CHR 0x5C then [CHR 0x5C, CHR 0x5C]
      else if c = CHR 0x22 then [CHR 0x5C, CHR 0x22]
      else if c = CHR 0x08 then [CHR 0x5C, CHR ''b'']
      else if c = CHR 0x0C then [CHR 0x5C, CHR ''f'']
      else if c = CHR 0x0A then [CHR 0x5C, CHR ''n'']
      else if c = CHR 0x0D then [CHR 0x5C, CHR ''r'']
      else if c = CHR 0x09 then [CHR 0x5C, CHR ''t'']
      else if of_char c < (32::nat) \<or> (126::nat) < of_char c
        then [CHR 0x5C, CHR ''u'', CHR ''0'', CHR ''0'',
              hex_char (of_char c div 16), hex_char (of_char c mod 16)]
      else [c])"

definition encode_basestring_ascii :: "string \<Rightarrow> string" where
  "encode_basestring_ascii s = CHR 0x22 # concat (map escape_char s) @ [CHR 0x22]"

definition float_str :: "string \<Rightarrow> string" where
  "float_str r =
     (if r = ''nan'' then ''NaN''
      else if r = ''inf'' then ''Infinity''
      else if r = ''-inf'' then ''-Infinity''
      else r)"

fun dumps :: "json \<Rightarrow> string" where
  "dumps JNull = ''null''"
| "dumps (JBool b) = (if b then ''true'' else ''false'')"
| "dumps (JInt i) = str_int i"
| "dumps (JFloat r) = float_str r"
| "dumps (JStr s) = encode_basestring_ascii s"
| "dumps (JList xs) = ''['' @ join '', '' (map dumps xs) @ '']''"
| "dumps (JDict d) =
     ''{'' @ join '', ''
        (map (\<lambda>(k, v). encode_basestring_ascii k @ '': '' @ dumps v) (sort_key fst d)) @ ''}''"

section \<open>hashlib.sha256(data).hexdigest()\<close>

text \<open>SHA-256 as FIPS 180-4 defines it, on 32-bit words; a byte is a number below 256.\<close>

type_synonym word32 = "32 word"
type_synonym sha_state =
  "word32 \<times> word32 \<times> word32 \<times> word32 \<times> word32 \<times> word32 \<times> word32 \<times> word32"

definition rotr :: "nat \<Rightarrow> word32 \<Rightarrow> word32" where
  "rotr n x = drop_bit n x OR push_bit (32 - n) x"

definition Ch :: "word32 \<Rightarrow> word32 \<Rightarrow> word32 \<Rightarrow> word32" where
  "Ch x y z = (x AND y) XOR (NOT x AND z)"

definition Maj :: "word32 \<Rightarrow> word32 \<Rightarrow> word32 \<Rightarrow> word32" where
  "Maj x y z = (x AND y) XOR (x AND z) XOR (y AND z)"

definition bsig0 :: "word32 \<Rightarrow> word32" where
  "bsig0 x = rotr 2 x XOR rotr 13 x XOR rotr 22 x"

definition bsig1 :: "word32 \<Rightarrow> word32" where
  "bsig1 x = rotr 6 x XOR rotr 11 x XOR rotr 25 x"

definition ssig0 :: "word32 \<Rightarrow> word32" where
  "ssig0 x = rotr 7 x XOR rotr 18 x XOR drop_bit 3 x"

definition ssig1 :: "word32 \<Rightarrow> word32" where
  "ssig1 x = rotr 17 x XOR rotr 19 x XOR drop_bit 10 x"

text \<open>The sixty-four round constants, eight to a row.\<close>

definition K256 :: "word32 list" where
  "K256 =
     [0x428a2f98, 0x71374491, 0xb5c0fbcf, 0xe9b5dba5, 0x3956c25b, 0x59f111f1, 0x923f82a4, 0xab1c5ed5] @
     [0xd807aa98, 0x12835b01, 0x243185be, 0x550c7dc3, 0x72be5d74, 0x80deb1fe, 0x9bdc06a7, 0xc19bf174] @
     [0xe49b69c1, 0xefbe4786, 0x0fc19dc6, 0x240ca1cc, 0x2de92c6f, 0x4a7484aa, 0x5cb0a9dc, 0x76f988da] @
     [0x983e5152, 0xa831c66d, 0xb00327c8, 0xbf597fc7, 0xc6e00bf3, 0xd5a79147, 0x06ca6351, 0x14292967] @
     [0x27b70a85, 0x2e1b2138, 0x4d2c6dfc, 0x53380d13, 0x650a7354, 0x766a0abb, 0x81c2c92e, 0x92722c85] @
     [0xa2bfe8a1, 0xa81a664b, 0xc24b8b70, 0xc76c51a3, 0xd192e819, 0xd6990624, 0xf40e3585, 0x106aa070] @
     [0x19a4c116, 0x1e376c08, 0x2748774c, 0x34b0bcb5, 0x391c0cb3, 0x4ed8aa4a, 0x5b9cca4f, 0x682e6ff3] @
     [0x748f82ee, 0x78a5636f, 0x84c87814, 0x8cc70208, 0x90befffa, 0xa4506ceb, 0xbef9a3f7, 0xc67178f2]"

definition H256 :: sha_state where
  "H256 = (0x6a09e667, 0xbb67ae85, 0x3c6ef372, 0xa54ff53a,
           0x510e527f, 0x9b05688c, 0x1f83d9ab, 0x5be0cd19)"

text \<open>Padding: the byte 128, zero bytes up to 56 modulo 64, and the bit length of the
  message as a 64-bit number, most significant byte first.\<close>

definition sha_pad :: "nat list \<Rightarrow> nat list" where
  "sha_pad m =
     m @ [128] @ replicate ((119 - length m mod 64) mod 64) 0
       @ map (\<lambda>i. unat (drop_bit (8 * (7 - i)) (of_nat (8 * length m) :: 64 word) AND 0xFF))
           [0..<8]"

text \<open>Four bytes as a 32-bit word, most significant byte first.\<close>

definition be32 :: "nat list \<Rightarrow> word32" where
  "be32 bs = foldl (\<lambda>acc b. push_bit 8 acc OR of_nat b) 0 bs"

definition block_words :: "nat list \<Rightarrow> word32 list" where
  "block_words blk = map (\<lambda>i. be32 (take 4 (drop (4 * i) blk))) [0..<16]"

fun extend :: "nat \<Rightarrow> word32 list \<Rightarrow> word32 list" where
  "extend 0 w = w"
| "extend (Suc n) w =
     extend n (w @ [ssig1 (w ! (length w - 2)) + w ! (length w - 7)
                    + ssig0 (w ! (length w - 15)) + w ! (length w - 16)])"

definition sha_round :: "word32 \<times> word32 \<Rightarrow> sha_state \<Rightarrow> sha_state" where
  "sha_round kw s =
     (case (kw, s) of ((k, w), (a, b, c, d, e, f, g, h)) \<Rightarrow>
        (let t1 = h + bsig1 e + Ch e f g + k + w;
             t2 = bsig0 a + Maj a b c
         in (t1 + t2, a, b, c, d + t1, e, f, g)))"

definition compress :: "sha_state \<Rightarrow> nat list \<Rightarrow> sha_state" where
  "compress s blk =
     (case (s, fold sha_round (zip K256 (extend 48 (block_words blk))) s) of
        ((a, b, c, d, e, f, g, h), (a', b', c', d', e', f', g', h')) \<Rightarrow>
          (a + a', b + b', c + c', d + d', e + e', f + f', g + g', h + h'))"

function sha_blocks :: "sha_state \<Rightarrow> nat list \<Rightarrow> sha_state" where
  "sha_blocks s bs =
     (if length bs < 64 then s else sha_blocks (compress s (take 64 bs)) (drop 64 bs))"
  by pat_completeness auto
termination
  by (relation "measure (\<lambda>p. length (snd p))") simp_all

definition hex8 :: "word32 \<Rightarrow> string" where
  "hex8 w = map (\<lambda>i. hex_char (unat (drop_bit (4 * (7 - i)) w AND 0xF))) [0..<8]"

definition sha256_hexdigest :: "nat list \<Rightarrow> string" where
  "sha256_hexdigest data =
     (case sha_blocks H256 (sha_pad data) of
        (a, b, c, d, e, f, g, h) \<Rightarrow>
          hex8 a @ hex8 b @ hex8 c @ hex8 d @ hex8 e @ hex8 f @ hex8 g @ hex8 h)"

section \<open>The collaborators outside status\_controller.py\<close>

text \<open>
  What \<^verbatim>\<open>GlacierTransferMetadata.parse\<close> returns, with the five attributes the
  controller reads (\<open>size'\<close> is the attribute \<^verbatim>\<open>size\<close>). The size and the archive
  identifier can be \<^verbatim>\<open>None\<close>. The record is extensible: the other attributes are its
  rest.
\<close>

record GlacierTransferMetadata =
  workflow_run :: string
  retrieval_type :: string
  size' :: "int option"
  archive_id :: "string option"
  retrieve_status :: string

text \<open>
  The functions and constants of the modules the controller imports, which it only calls:
  the parser of an image (it may raise), \<^verbatim>\<open>GlacierJobType.ARCHIVE_RETRIEVAL\<close>,
  \<^verbatim>\<open>GlacierTransferModel(workflow_run=w, glacier_object_id=a).key["pk"]\<close>, the text
  an f-string prints for a metadata object, and
  \<^verbatim>\<open>os.environ.get(OutputKeys.METRIC_TABLE_NAME)\<close>.
\<close>

record deps =
  parse :: "json \<Rightarrow> GlacierTransferMetadata result"
  ARCHIVE_RETRIEVAL :: string
  key_pk :: "string \<Rightarrow> string \<Rightarrow> string"
  metadata_str :: "GlacierTransferMetadata \<Rightarrow> string"
  environ_METRIC_TABLE_NAME :: "string option"

text \<open>
  Modelled from the spec: the constants \<^verbatim>\<open>GlacierTransferModel.StatusCode.REQUESTED\<close>,
  \<^verbatim>\<open>STAGED\<close> and \<^verbatim>\<open>DOWNLOADED\<close>, declared in glacier\_transfer\_model. The spec
  names the three statuses and the counters \<^verbatim>\<open>{countedStatus}_count\<close> and
  \<^verbatim>\<open>{countedStatus}_size\<close>; the values are the ones for which the keys the controller
  builds from them are the six keys of \<^verbatim>\<open>_initial_metric\<close>.
\<close>

definition REQUESTED :: string where
  "REQUESTED = ''requested''"

definition STAGED :: string where
  "STAGED = ''staged''"

definition DOWNLOADED :: string where
  "DOWNLOADED = ''downloaded''"

section \<open>StatusMetricController\<close>

datatype level = DEBUG | INFO | ERROR

type_synonym metric = "(string \<times> int) list"
type_synonym metrics = "(string \<times> metric) list"

text \<open>The attributes of the controller, and \<open>logged\<close>: the calls made on the module's
  logger, in order.\<close>

record StatusMetricController =
  counted_logs :: "string list"
  records :: "(string \<times> json) list list"
  workflow_run_metrics :: metrics
  client_request_token :: string
  logged :: "(level \<times> string) list"

definition initial_metric :: metric where
  "initial_metric =
     [(''requested_count'', 0), (''requested_size'', 0),
      (''staged_count'', 0), (''staged_size'', 0),
      (''downloaded_count'', 0), (''downloaded_size'', 0)]"

text \<open>\<^verbatim>\<open>token[::2]\<close>.\<close>

fun every_other :: "'a list \<Rightarrow> 'a list" where
  "every_other [] = []"
| "every_other [x] = [x]"
| "every_other (x # y # xs) = x # every_other xs"

text \<open>\<^verbatim>\<open>s.encode()\<close> of a string of ASCII characters, which is what \<open>dumps\<close> returns.\<close>

definition encode :: "string \<Rightarrow> nat list" where
  "encode s = map of_char s"

definition generate_client_request_token :: "(string \<times> json) list list \<Rightarrow> string" where
  "generate_client_request_token recs =
     (let token = sha256_hexdigest (encode (dumps (JList (map JDict recs))))
      in every_other token @ drop (length token - 4) token)"

definition init :: "(string \<times> json) list list \<Rightarrow> StatusMetricController" where
  "init recs =
     \<lparr>counted_logs = [], records = recs, workflow_run_metrics = [],
      client_request_token = generate_client_request_token recs, logged = []\<rparr>"

text \<open>\<^verbatim>\<open>self.workflow_run_metrics[w][k] += v\<close>: the defaultdict adds \<open>w\<close> with the initial
  metric when it is new; the inner dictionary raises KeyError on a key it does not have.\<close>

definition add_metric :: "string \<Rightarrow> string \<Rightarrow> int \<Rightarrow> metrics \<Rightarrow> metrics result" where
  "add_metric w k v m =
     (let (d, m') = (case map_of m w of
                       None \<Rightarrow> (initial_metric, m @ [(w, initial_metric)])
                     | Some d \<Rightarrow> (d, m))
      in case map_of d k of
           None \<Rightarrow> Inl (KeyError k)
         | Some c \<Rightarrow> Inr (AList.update w (AList.update k (c + v) d) m'))"

definition status_mapping :: "((string option \<times> string) \<times> string) list" where
  "status_mapping =
     [((None, REQUESTED), REQUESTED),
      ((Some REQUESTED, STAGED), STAGED),
      ((Some STAGED, DOWNLOADED), DOWNLOADED)]"

text \<open>\<^verbatim>\<open>GlacierTransferMetadata.parse(old_image).retrieve_status.split("/")[-1] if old_image
  else None\<close>; the default \<^verbatim>\<open>None\<close> of the parameter is \<open>JNull\<close>.\<close>

definition old_status_of :: "deps \<Rightarrow> json \<Rightarrow> string option result" where
  "old_status_of X old_image =
     (if truthy old_image then
        (case parse X old_image of
           Inl e \<Rightarrow> Inl e
         | Inr old_metadata \<Rightarrow> Inr (Some (last (str_split CHR ''/'' (retrieve_status old_metadata)))))
      else Inr None)"

text \<open>
  \<^verbatim>\<open>increase_archive_status_metric_counter(new_image, old_image)\<close>. The test
  \<^verbatim>\<open>not new_metadata.size or not new_metadata.archive_id\<close> holds for \<^verbatim>\<open>None\<close>, for the
  size 0 and for the empty string. The values of \<open>status_mapping\<close> are non-empty strings,
  so \<^verbatim>\<open>if result_status:\<close> is whether the pair is a key of the table.
\<close>

definition increase_archive_status_metric_counter ::
  "deps \<Rightarrow> json \<Rightarrow> json \<Rightarrow> StatusMetricController \<Rightarrow> StatusMetricController result" where
  "increase_archive_status_metric_counter X new_image old_image s =
     (case parse X new_image of
        Inl e \<Rightarrow> Inl e
      | Inr new_metadata \<Rightarrow>
          if retrieval_type new_metadata \<noteq> ARCHIVE_RETRIEVAL X then Inr s
          else
            (case (size' new_metadata, archive_id new_metadata) of
               (Some z, Some a) \<Rightarrow>
                 if z = 0 \<or> a = [] then
                   Inr (s\<lparr>logged := logged s @
                     [(ERROR, ''Failed to read archive's metadata from '' @ metadata_str X new_metadata)]\<rparr>)
                 else
                   (let new_status = last (str_split CHR ''/'' (retrieve_status new_metadata)) in
                    case old_status_of X old_image of
                      Inl e \<Rightarrow> Inl e
                    | Inr old_status \<Rightarrow>
                        (let result_status = map_of status_mapping (old_status, new_status);
                             archive = key_pk X (workflow_run new_metadata) a
                         in case result_status of
                              Some rs \<Rightarrow>
                                (case add_metric (workflow_run new_metadata) (rs @ ''_count'') 1
                                        (workflow_run_metrics s) of
                                   Inl e \<Rightarrow> Inl e
                                 | Inr m1 \<Rightarrow>
                                     (case add_metric (workflow_run new_metadata) (rs @ ''_size'') z m1 of
                                        Inl e \<Rightarrow> Inl e
                                      | Inr m2 \<Rightarrow>
                                          Inr (s\<lparr>logged := logged s @
                                                   [(DEBUG, ''Archive:'' @ archive @ '' - handled_status:'' @ new_status)],
                                                 counted_logs := counted_logs s @
                                                   [''Archive:'' @ archive @ '' - counted_status:'' @ new_status],
                                                 workflow_run_metrics := m2\<rparr>)))
                            | None \<Rightarrow>
                                Inr (s\<lparr>logged := logged s @
                                  [(INFO, ''Archive:'' @ archive @ '' - unhandled_status:'' @ new_status)]\<rparr>)))
             | _ \<Rightarrow>
                 Inr (s\<lparr>logged := logged s @
                   [(ERROR, ''Failed to read archive's metadata from '' @ metadata_str X new_metadata)]\<rparr>)))"

text \<open>The body of the loop of \<^verbatim>\<open>handle_archive_status_changed\<close> for one record, and
  the loop.\<close>

definition handle_record ::
  "deps \<Rightarrow> (string \<times> json) list \<Rightarrow> StatusMetricController \<Rightarrow> StatusMetricController result" where
  "handle_record X r s =
     (if dict_get r ''eventSource'' = Some (JStr ''aws:dynamodb'') then
        if dict_get r ''eventName'' = Some (JStr ''INSERT'') then
          (case subscript (JDict r) ''dynamodb'' of
             Inl e \<Rightarrow> Inl e
           | Inr d \<Rightarrow>
               (case subscript d ''NewImage'' of
                  Inl e \<Rightarrow> Inl e
                | Inr new_image \<Rightarrow> increase_archive_status_metric_counter X new_image JNull s))
        else if dict_get r ''eventName'' = Some (JStr ''MODIFY'') then
          (case subscript (JDict r) ''dynamodb'' of
             Inl e \<Rightarrow> Inl e
           | Inr d \<Rightarrow>
               (case subscript d ''NewImage'' of
                  Inl e \<Rightarrow> Inl e
                | Inr new_image \<Rightarrow>
                    (case subscript d ''OldImage'' of
                       Inl e \<Rightarrow> Inl e
                     | Inr old_image \<Rightarrow>
                         increase_archive_status_metric_counter X new_image old_image s)))
        else Inr s
      else Inr s)"

fun handle_records ::
  "deps \<Rightarrow> (string \<times> json) list list \<Rightarrow> StatusMetricController \<Rightarrow> StatusMetricController result" where
  "handle_records X [] s = Inr s"
| "handle_records X (r # rs) s =
     (case handle_record X r s of
        Inl e \<Rightarrow> Inl e
      | Inr s' \<Rightarrow> handle_records X rs s')"

text \<open>One item of \<^verbatim>\<open>TransactItems\<close>: the \<^verbatim>\<open>Update\<close> of one workflow run. \<open>Key_pk\<close> is
  the string of \<^verbatim>\<open>{"pk": {"S": workflow_run}}\<close>, the values of
  \<open>ExpressionAttributeValues\<close> are the strings of \<^verbatim>\<open>{"N": value}\<close>.\<close>

record Update =
  TableName :: string
  Key_pk :: string
  UpdateExpression :: string
  ExpressionAttributeValues :: "(string \<times> string) list"

text \<open>The two inner loops of \<^verbatim>\<open>update_metric_query\<close>, over the pairs of a status and
  an attribute type in the order the loops visit them.\<close>

definition attributes :: "(string \<times> string) list" where
  "attributes = List.product [REQUESTED, STAGED, DOWNLOADED] [''count'', ''size'']"

fun metric_attributes ::
  "(string \<times> string) list \<Rightarrow> metric \<Rightarrow> (string \<times> string) list \<times> string list
     \<Rightarrow> ((string \<times> string) list \<times> string list) result" where
  "metric_attributes [] metrics acc = Inr acc"
| "metric_attributes ((attribute_status, attribute_type) # rest) metrics (values, updates) =
     (let attribute_key = '':update_'' @ attribute_status @ ''_'' @ attribute_type in
      case map_of metrics (attribute_status @ ''_'' @ attribute_type) of
        None \<Rightarrow> Inl (KeyError (attribute_status @ ''_'' @ attribute_type))
      | Some v \<Rightarrow>
          metric_attributes rest metrics
            (AList.update attribute_key (str_int v) values,
             updates @ [attribute_type @ ''_'' @ attribute_status @ '' '' @ attribute_key]))"

text \<open>The outer loop, over the items of \<^verbatim>\<open>workflow_run_metrics\<close>. Reading the table
  name from an environment without it raises KeyError (written here with the name of the
  constant that holds the key).\<close>

fun transact_items_of :: "deps \<Rightarrow> metrics \<Rightarrow> Update list \<Rightarrow> Update list result" where
  "transact_items_of X [] transact_items = Inr transact_items"
| "transact_items_of X ((w, metrics) # rest) transact_items =
     (case metric_attributes attributes metrics ([], []) of
        Inl e \<Rightarrow> Inl e
      | Inr (values, updates) \<Rightarrow>
          (case environ_METRIC_TABLE_NAME X of
             None \<Rightarrow> Inl (KeyError ''METRIC_TABLE_NAME'')
           | Some table \<Rightarrow>
               transact_items_of X rest
                 (transact_items @
                    [\<lparr>TableName = table, Key_pk = w,
                      UpdateExpression = ''ADD '' @ join '', '' updates,
                      ExpressionAttributeValues = values\<rparr>])))"

text \<open>
  The DynamoDB client: the store is a state \<open>'db\<close>, and
  \<^verbatim>\<open>transact_write_items(TransactItems, ClientRequestToken)\<close> a function on it that may
  raise.
\<close>

type_synonym 'db client = "Update list \<Rightarrow> string \<Rightarrow> 'db \<Rightarrow> 'db result"

text \<open>
  One attempt of \<^verbatim>\<open>update_metric_query\<close>. \<open>boto3_client\<close> is the outcome of
  \<^verbatim>\<open>boto3.client("dynamodb", config=__boto_config__)\<close>: the client, or the exception the
  call raises (botocore raises when it finds no region, for one). The call is made for
  every non-empty batch, before the items are built. The \<^verbatim>\<open>retry\<close> decorator, which
  runs the attempt again when it raises, is outside this file.
\<close>

definition update_metric_query ::
  "deps \<Rightarrow> 'db client result \<Rightarrow> StatusMetricController \<Rightarrow> 'db
     \<Rightarrow> (StatusMetricController \<times> 'db) result" where
  "update_metric_query X boto3_client s db =
     (if records s \<noteq> [] then
        (case boto3_client of
           Inl e \<Rightarrow> Inl e
         | Inr transact_write_items \<Rightarrow>
             (case transact_items_of X (workflow_run_metrics s) [] of
                Inl e \<Rightarrow> Inl e
              | Inr transact_items \<Rightarrow>
                  (case (if transact_items \<noteq> []
                         then transact_write_items transact_items (client_request_token s) db
                         else Inr db) of
                     Inl e \<Rightarrow> Inl e
                   | Inr db' \<Rightarrow>
                       Inr (s\<lparr>logged := logged s @ map (Pair INFO) (counted_logs s)\<rparr>, db'))))
      else Inr (s, db))"

definition handle_archive_status_changed ::
  "deps \<Rightarrow> 'db client result \<Rightarrow> StatusMetricController \<Rightarrow> 'db
     \<Rightarrow> (StatusMetricController \<times> 'db) result" where
  "handle_archive_status_changed X boto3_client s db =
     (case handle_records X (records s) s of
        Inl e \<Rightarrow> Inl e
      | Inr s' \<Rightarrow> update_metric_query X boto3_client s' db)"

section \<open>Vocabulary of the properties\<close>

text \<open>The delta of a workflow run as the defaultdict gives it: the initial metric for a
  run that has not been touched.\<close>

definition delta_of :: "metrics \<Rightarrow> string \<Rightarrow> metric" where
  "delta_of m w = (case map_of m w of None \<Rightarrow> initial_metric | Some d \<Rightarrow> d)"

text \<open>Every delta has the six counters of the initial metric, in its order.\<close>

definition six_counters :: "metrics \<Rightarrow> bool" where
  "six_counters m = list_all (\<lambda>(w, d). map fst d = map fst initial_metric) m"

text \<open>No counter of any delta is negative.\<close>

definition non_negative :: "metrics \<Rightarrow> bool" where
  "non_negative m = list_all (\<lambda>(w, d). list_all (\<lambda>(k, v). 0 \<le> v) d) m"

text \<open>The counting branch of \<open>increase_archive_status_metric_counter\<close> on its own: the
  two additions, then the three updates of the controller.\<close>

definition count_into ::
  "string \<Rightarrow> string \<Rightarrow> int \<Rightarrow> (level \<times> string) list \<Rightarrow> string
     \<Rightarrow> StatusMetricController \<Rightarrow> StatusMetricController result" where
  "count_into W S z L c s =
     (case add_metric W (S @ ''_count'') 1 (workflow_run_metrics s) of
        Inl e \<Rightarrow> Inl e
      | Inr m1 \<Rightarrow>
          (case add_metric W (S @ ''_size'') z m1 of
             Inl e \<Rightarrow> Inl e
           | Inr m2 \<Rightarrow>
               Inr (s\<lparr>logged := logged s @ L, counted_logs := counted_logs s @ [c],
                      workflow_run_metrics := m2\<rparr>)))"

text \<open>Adding \<open>v\<close> to the counter \<open>k\<close> of a delta, entry by entry.\<close>

definition add_to :: "string \<Rightarrow> int \<Rightarrow> metric \<Rightarrow> metric" where
  "add_to k v d = map (\<lambda>(k', v'). (k', if k' = k then v' + v else v')) d"

text \<open>What counting one event of workflow run \<open>W\<close>, status \<open>S\<close> and size \<open>z\<close> does to
  the mapping from workflow runs to deltas.\<close>

definition counted :: "string \<Rightarrow> string \<Rightarrow> int \<Rightarrow> (string \<rightharpoonup> metric) \<Rightarrow> (string \<rightharpoonup> metric)" where
  "counted W S z M =
     M(W \<mapsto> add_to (S @ ''_size'') z (add_to (S @ ''_count'') 1
        (case M W of None \<Rightarrow> initial_metric | Some d \<Rightarrow> d)))"

text \<open>Two outcomes of processing agree: both raise, or both return deltas with the six
  counters that are the same mapping.\<close>

definition agree :: "StatusMetricController result \<Rightarrow> StatusMetricController result \<Rightarrow> bool" where
  "agree a b =
     (case a of
        Inl e \<Rightarrow> (case b of Inl e' \<Rightarrow> True | Inr t' \<Rightarrow> False)
      | Inr t \<Rightarrow>
          (case b of
             Inl e' \<Rightarrow> False
           | Inr t' \<Rightarrow>
               six_counters (workflow_run_metrics t) \<and> six_counters (workflow_run_metrics t')
               \<and> map_of (workflow_run_metrics t) = map_of (workflow_run_metrics t')))"

text \<open>A value as a JSON decoder builds it: no dictionary, at any depth, has a key
  twice.\<close>

fun distinct_keys :: "json \<Rightarrow> bool" where
  "distinct_keys (JList xs) = (\<forall>x \<in> set xs. distinct_keys x)"
| "distinct_keys (JDict d) = (distinct (map fst d) \<and> (\<forall>(k, v) \<in> set d. distinct_keys v))"
| "distinct_keys _ = True"

text \<open>Two values with the same content up to the order in which the keys of their
  dictionaries were inserted: lists agree element by element, dictionaries have the same
  keys with values of the same content, everything else is equal.\<close>

fun same_content :: "json \<Rightarrow> json \<Rightarrow> bool" where
  "same_content (JList xs) (JList ys) = list_all2 same_content xs ys"
| "same_content (JDict d) (JDict d') =
     (set (map fst d) = set (map fst d')
      \<and> (\<forall>(k, v) \<in> set d. case map_of d' k of None \<Rightarrow> False | Some v' \<Rightarrow> same_content v v'))"
| "same_content x y = (x = y)"

section \<open>Collaborators for the examples\<close>

text \<open>
  A parser, a key and a table name to run the controller on concrete records: the parser
  reads the five attributes from a flat image and raises when one of the three strings is
  not there.
\<close>

definition example_parse :: "json \<Rightarrow> GlacierTransferMetadata result" where
  "example_parse img =
     (case (subscript img ''workflow_run'', subscript img ''retrieval_type'',
            subscript img ''retrieve_status'') of
        (Inr (JStr w), Inr (JStr t), Inr (JStr st)) \<Rightarrow>
          Inr \<lparr>workflow_run = w, retrieval_type = t,
               size' = (case subscript img ''size'' of Inr (JInt z) \<Rightarrow> Some z | _ \<Rightarrow> None),
               archive_id = (case subscript img ''archive_id'' of Inr (JStr a) \<Rightarrow> Some a | _ \<Rightarrow> None),
               retrieve_status = st\<rparr>
      | _ \<Rightarrow> Inl (ParseError ''image''))"

definition example_deps :: deps where
  "example_deps =
     \<lparr>parse = example_parse, ARCHIVE_RETRIEVAL = ''archive-retrieval'',
      key_pk = (\<lambda>w a. w @ ''|'' @ a), metadata_str = workflow_run,
      environ_METRIC_TABLE_NAME = Some ''metric_table''\<rparr>"

definition example_image :: "string \<Rightarrow> string \<Rightarrow> json \<Rightarrow> json \<Rightarrow> string \<Rightarrow> json" where
  "example_image w t z a st =
     JDict [(''workflow_run'', JStr w), (''retrieval_type'', JStr t), (''size'', z),
            (''archive_id'', a), (''retrieve_status'', JStr st)]"

definition example_insert :: "json \<Rightarrow> (string \<times> json) list" where
  "example_insert new_image =
     [(''eventSource'', JStr ''aws:dynamodb''), (''eventName'', JStr ''INSERT''),
      (''dynamodb'', JDict [(''NewImage'', new_image)])]"

section \<open>Properties\<close>

subsection \<open>The library functions on known values\<close>

text \<open>\<open>str_split\<close> cuts a string at every separator: joining the segments with the
  separator gives the string back, and no segment contains the separator.\<close>

lemma str_split_not_empty: "str_split sep s \<noteq> []"
  by (induction s) (auto split: list.splits)

lemma join_str_split: "join [sep] (str_split sep s) = s"
proof (induction s)
  case Nil
  then show ?case by simp
next
  case (Cons c s)
  obtain w ws where w: "str_split sep s = w # ws"
    using str_split_not_empty [of sep s] by (cases "str_split sep s") auto
  show ?case
    using Cons w by (cases ws) auto
qed

lemma str_split_segments: "w \<in> set (str_split sep s) \<Longrightarrow> sep \<notin> set w"
  by (induction s arbitrary: w) (auto split: list.splits if_splits)

lemma str_split_examples:
  "str_split CHR ''/'' ''a/b//c'' = [''a'', ''b'', [], ''c'']"
  "str_split CHR ''/'' ''abc/'' = [''abc'', []]"
  "str_split CHR ''/'' [] = [[]]"
  by simp_all

text \<open>\<open>dumps\<close> on a nested value: the keys come out sorted, the separators are a comma
  and a colon, each followed by a space; and the escapes of a string literal.\<close>

lemma dumps_example:
  \<open>dumps (JList [JDict [(''b'', JInt (- 12)), (''a'', JList [JFloat ''1.5'', JNull, JBool True]),
      (''c'', JDict [])]])
   = ''[{"a": [1.5, null, true], "b": -12, "c": {}}]''\<close>
  by code_simp

lemma escape_examples:
  "encode_basestring_ascii [CHR ''x'', CHR 0x22, CHR 0x5C, CHR 0x0A, CHR 0x7F, CHR 0xE9]
   = [CHR 0x22, CHR ''x'', CHR 0x5C, CHR 0x22, CHR 0x5C, CHR 0x5C, CHR 0x5C, CHR ''n'',
      CHR 0x5C, CHR ''u'', CHR ''0'', CHR ''0'', CHR ''7'', CHR ''f'',
      CHR 0x5C, CHR ''u'', CHR ''0'', CHR ''0'', CHR ''e'', CHR ''9'', CHR 0x22]"
  by code_simp

text \<open>The digest of the text \<^verbatim>\<open>[]\<close>, which is the serialization of the empty batch, and
  the token made from it.\<close>

lemma sha256_of_empty_batch:
  "sha256_hexdigest (encode (dumps (JList (map JDict []))))
   = ''4f53cda18c2baa0c0354bb5f9a3ecbe5ed12ab4d8e11ba873c2f11161202b945''"
  by code_simp

lemma token_of_empty_batch:
  "generate_client_request_token [] = ''45ca82a005b593cee1a481b8321110b4b945''"
  unfolding generate_client_request_token_def sha256_of_empty_batch Let_def by simp

subsection \<open>The example collaborators\<close>

lemma example_parse_image [simp]:
  "example_parse (example_image w t z a st) =
     Inr \<lparr>workflow_run = w, retrieval_type = t,
          size' = (case z of JInt i \<Rightarrow> Some i | _ \<Rightarrow> None),
          archive_id = (case a of JStr x \<Rightarrow> Some x | _ \<Rightarrow> None),
          retrieve_status = st\<rparr>"
  by (simp add: example_parse_def example_image_def split: json.splits)

lemma truthy_example_image [simp]: "truthy (example_image w t z a st)"
  by (simp add: example_image_def)

lemma handle_example_insert [simp]:
  "handle_record X (example_insert new_image) s =
     increase_archive_status_metric_counter X new_image JNull s"
  by (simp add: handle_record_def example_insert_def dict_get_def)

subsection \<open>Adding to a counter\<close>

lemma map_of_add_metric:
  assumes "add_metric w k v m = Inr m'"
  shows "\<exists>c. map_of (delta_of m w) k = Some c
           \<and> map_of m' = (map_of m)(w \<mapsto> AList.update k (c + v) (delta_of m w))"
  using assms
  by (auto simp add: add_metric_def delta_of_def update_conv' fun_eq_iff map_add_def
      split: option.splits)

lemma add_metric_succeeds:
  assumes "map_of (delta_of m w) k = Some c"
  shows "\<exists>m'. add_metric w k v m = Inr m'"
  using assms
  by (auto simp add: add_metric_def delta_of_def split: option.splits)

lemma delta_of_add_metric:
  assumes "add_metric w k v m = Inr m'"
  shows "\<exists>c. map_of (delta_of m w) k = Some c
           \<and> delta_of m' w = AList.update k (c + v) (delta_of m w)
           \<and> (\<forall>w'. w' \<noteq> w \<longrightarrow> delta_of m' w' = delta_of m w')"
  using map_of_add_metric [OF assms] by (auto simp add: delta_of_def)

lemma list_all_update:
  "list_all P al \<Longrightarrow> P (k, v) \<Longrightarrow> list_all P (AList.update k v al)"
  by (induction al) auto

lemma six_counters_delta_of:
  "six_counters m \<Longrightarrow> map fst (delta_of m w) = map fst initial_metric"
  by (auto simp add: six_counters_def delta_of_def list_all_iff split: option.splits dest!: map_of_SomeD)

lemma map_fst_update_present:
  "map_of d k = Some c \<Longrightarrow> map fst (AList.update k v d) = map fst d"
  by (induction d) (auto split: if_splits)

lemma six_counters_add_metric:
  assumes "six_counters m" and "add_metric w k v m = Inr m'"
  shows "six_counters m'"
proof -
  have d: "map fst (delta_of m w) = map fst initial_metric"
    using assms(1) by (rule six_counters_delta_of)
  show ?thesis
    using assms d
    by (auto simp add: add_metric_def six_counters_def delta_of_def map_fst_update_present
        intro!: list_all_update split: option.splits)
qed

lemma counter_present:
  assumes "six_counters m" and "k \<in> fst ` set initial_metric"
  shows "\<exists>c. map_of (delta_of m w) k = Some c"
proof -
  have "k \<in> set (map fst (delta_of m w))"
    using assms six_counters_delta_of [OF assms(1), of w] by simp
  then show ?thesis
    by (metis map_of_eq_None_iff not_Some_eq set_map)
qed


lemma status_mapping_SomeD:
  "map_of status_mapping p = Some S \<Longrightarrow> S = REQUESTED \<or> S = STAGED \<or> S = DOWNLOADED"
  by (auto simp add: status_mapping_def split: if_splits)

lemma status_counters:
  assumes "S = REQUESTED \<or> S = STAGED \<or> S = DOWNLOADED"
  shows "S @ ''_count'' \<in> fst ` set initial_metric" and "S @ ''_size'' \<in> fst ` set initial_metric"
  using assms by (auto simp add: REQUESTED_def STAGED_def DOWNLOADED_def initial_metric_def)

lemma add_metric_mono:
  assumes "add_metric w k v m = Inr m'" and "0 \<le> v" and "map_of (delta_of m w0) k0 = Some x"
  shows "\<exists>x'. map_of (delta_of m' w0) k0 = Some x' \<and> x \<le> x'"
  using delta_of_add_metric [OF assms(1)] assms(2,3)
  by (cases "w0 = w") (auto simp add: update_conv')

lemma add_metric_non_negative:
  assumes "non_negative m" and "0 \<le> v" and "add_metric w k v m = Inr m'"
  shows "non_negative m'"
proof -
  have i: "list_all (\<lambda>(k, v). 0 \<le> v) initial_metric"
    by (simp add: initial_metric_def)
  have "list_all (\<lambda>(k, v). 0 \<le> v) (delta_of m w)"
    using assms(1) i
    by (auto simp add: non_negative_def delta_of_def list_all_iff split: option.splits
        dest!: map_of_SomeD)
  moreover have "\<And>c. map_of (delta_of m w) k = Some c \<Longrightarrow> 0 \<le> c"
    using calculation by (auto simp add: list_all_iff dest!: map_of_SomeD)
  ultimately show ?thesis
    using assms
    by (auto simp add: add_metric_def non_negative_def delta_of_def
        intro!: list_all_update split: option.splits)
qed

subsection \<open>The three things a call can do\<close>

lemma increase_cases:
  obtains (raises) e where "\<And>s. increase_archive_status_metric_counter X n old s = Inl e"
  | (skips) L where
      "\<And>s. increase_archive_status_metric_counter X n old s = Inr (s\<lparr>logged := logged s @ L\<rparr>)"
  | (counts) W S z L c where "S = REQUESTED \<or> S = STAGED \<or> S = DOWNLOADED"
      "\<And>s. increase_archive_status_metric_counter X n old s = count_into W S z L c s"
proof (cases "parse X n")
  case (Inl e)
  then show ?thesis
    by (intro raises [of e]) (simp add: increase_archive_status_metric_counter_def)
next
  case (Inr nm)
  show ?thesis
  proof (cases "retrieval_type nm \<noteq> ARCHIVE_RETRIEVAL X
      \<or> size' nm = None \<or> size' nm = Some 0 \<or> archive_id nm = None \<or> archive_id nm = Some []")
    case True
    then consider "retrieval_type nm \<noteq> ARCHIVE_RETRIEVAL X"
      | "retrieval_type nm = ARCHIVE_RETRIEVAL X"
        "size' nm = None \<or> size' nm = Some 0 \<or> archive_id nm = None \<or> archive_id nm = Some []"
      by blast
    then show ?thesis
    proof cases
      case 1
      then show ?thesis
        using Inr by (intro skips [of "[]"]) (simp add: increase_archive_status_metric_counter_def)
    next
      case 2
      then show ?thesis
        using Inr
        by (intro skips [where L = "[(ERROR, ''Failed to read archive's metadata from '' @ metadata_str X nm)]"])
          (auto simp add: increase_archive_status_metric_counter_def split: option.splits)
    qed
  next
    case False
    then obtain z a where v: "retrieval_type nm = ARCHIVE_RETRIEVAL X" "size' nm = Some z" "z \<noteq> 0"
        "archive_id nm = Some a" "a \<noteq> []"
      by auto
    show ?thesis
    proof (cases "old_status_of X old")
      case (Inl e)
      then show ?thesis
        using Inr v by (intro raises [of e]) (simp add: increase_archive_status_metric_counter_def)
    next
      case os: (Inr old_status)
      show ?thesis
      proof (cases "map_of status_mapping (old_status, last (str_split CHR ''/'' (retrieve_status nm)))")
        case None
        then show ?thesis
          using Inr v os
          by (intro skips [where L = "[(INFO, ''Archive:'' @ key_pk X (workflow_run nm) a @ '' - unhandled_status:''
                  @ last (str_split CHR ''/'' (retrieve_status nm)))]"])
            (simp add: increase_archive_status_metric_counter_def Let_def)
      next
        case (Some S)
        show ?thesis
          using Inr v os Some
          by (intro counts [where S = S and W = "workflow_run nm" and z = z
                and L = "[(DEBUG, ''Archive:'' @ key_pk X (workflow_run nm) a @ '' - handled_status:''
                    @ last (str_split CHR ''/'' (retrieve_status nm)))]"
                and c = "''Archive:'' @ key_pk X (workflow_run nm) a @ '' - counted_status:''
                    @ last (str_split CHR ''/'' (retrieve_status nm))"])
            (simp_all add: increase_archive_status_metric_counter_def count_into_def Let_def
              status_mapping_SomeD split: sum.splits)
      qed
    qed
  qed
qed

lemma handle_record_shape:
  "(\<forall>s. handle_record X r s = Inr s) \<or> (\<exists>e. \<forall>s. handle_record X r s = Inl e)
     \<or> (\<exists>n old. \<forall>s. handle_record X r s = increase_archive_status_metric_counter X n old s)"
proof (cases "subscript (JDict r) ''dynamodb''")
  case (Inl e)
  then show ?thesis
    by (auto simp add: handle_record_def)
next
  case d: (Inr d)
  show ?thesis
  proof (cases "subscript d ''NewImage''")
    case (Inl e)
    then show ?thesis
      using d by (auto simp add: handle_record_def)
  next
    case n: (Inr n)
    show ?thesis
    proof (cases "subscript d ''OldImage''")
      case (Inl e)
      then show ?thesis
        using d n by (auto simp add: handle_record_def)
    next
      case (Inr old)
      then show ?thesis
        using d n by (auto simp add: handle_record_def)
    qed
  qed
qed

lemma handle_record_cases:
  obtains (raises) e where "\<And>s. handle_record X r s = Inl e"
  | (skips) L where "\<And>s. handle_record X r s = Inr (s\<lparr>logged := logged s @ L\<rparr>)"
  | (counts) W S z L c where "S = REQUESTED \<or> S = STAGED \<or> S = DOWNLOADED"
      "\<And>s. handle_record X r s = count_into W S z L c s"
proof -
  consider (none) "\<And>s. handle_record X r s = Inr s"
    | (err) e where "\<And>s. handle_record X r s = Inl e"
    | (call) n old where "\<And>s. handle_record X r s = increase_archive_status_metric_counter X n old s"
    using handle_record_shape [of X r] by blast
  then show ?thesis
  proof cases
    case none
    then show ?thesis by (intro skips [of "[]"]) simp
  next
    case (err e)
    then show ?thesis by (intro raises [of e]) simp
  next
    case (call n old)
    show ?thesis
      by (rule increase_cases [of X n old]) (auto simp add: call intro: raises skips counts)
  qed
qed

subsection \<open>The loop over the records\<close>


lemma count_into_Inr:
  assumes "count_into W S z L c s = Inr t"
  shows "\<exists>m1 m2. add_metric W (S @ ''_count'') 1 (workflow_run_metrics s) = Inr m1
           \<and> add_metric W (S @ ''_size'') z m1 = Inr m2
           \<and> t = s\<lparr>logged := logged s @ L, counted_logs := counted_logs s @ [c],
                    workflow_run_metrics := m2\<rparr>"
  using assms by (auto simp add: count_into_def split: sum.splits)

lemma count_into_same_metrics:
  assumes "workflow_run_metrics s2 = workflow_run_metrics s"
  shows "count_into W S z L c s2 =
     (case count_into W S z L c s of
        Inl e \<Rightarrow> Inl e
      | Inr t \<Rightarrow> Inr (s2\<lparr>logged := logged s2 @ L, counted_logs := counted_logs s2 @ [c],
                       workflow_run_metrics := workflow_run_metrics t\<rparr>))"
  using assms by (simp add: count_into_def split: sum.splits)

text \<open>A record is handled the same way from two controllers with the same metrics and
  the same queue of counted entries; what was logged stays logged.\<close>

lemma handle_record_sim:
  assumes "workflow_run_metrics s2 = workflow_run_metrics s" and "counted_logs s2 = counted_logs s"
  shows "(case handle_record X r s of
            Inl e \<Rightarrow> handle_record X r s2 = Inl e
          | Inr t \<Rightarrow> (\<exists>t2. handle_record X r s2 = Inr t2
                \<and> workflow_run_metrics t2 = workflow_run_metrics t
                \<and> counted_logs t2 = counted_logs t
                \<and> records t2 = records s2
                \<and> set (logged s2) \<subseteq> set (logged t2)))"
proof (cases rule: handle_record_cases [of X r])
  case (raises e)
  then show ?thesis by simp
next
  case (skips L)
  then show ?thesis using assms by auto
next
  case (counts W S z L c)
  show ?thesis
    using assms
    by (auto simp add: counts(2) count_into_same_metrics [OF assms(1)] dest!: count_into_Inr
        split: sum.splits)
qed

lemma handle_records_sim:
  assumes "workflow_run_metrics s2 = workflow_run_metrics s" and "counted_logs s2 = counted_logs s"
  shows "(case handle_records X rs s of
            Inl e \<Rightarrow> handle_records X rs s2 = Inl e
          | Inr t \<Rightarrow> (\<exists>t2. handle_records X rs s2 = Inr t2
                \<and> workflow_run_metrics t2 = workflow_run_metrics t
                \<and> counted_logs t2 = counted_logs t
                \<and> records t2 = records s2
                \<and> set (logged s2) \<subseteq> set (logged t2)))"
  using assms
proof (induction rs arbitrary: s s2)
  case Nil
  then show ?case by simp
next
  case (Cons r rs)
  show ?case
  proof (cases "handle_record X r s")
    case (Inl e)
    then show ?thesis
      using handle_record_sim [OF Cons.prems, of X r] by simp
  next
    case (Inr t)
    then obtain t2 where t2: "handle_record X r s2 = Inr t2"
      "workflow_run_metrics t2 = workflow_run_metrics t" "counted_logs t2 = counted_logs t"
      "records t2 = records s2" "set (logged s2) \<subseteq> set (logged t2)"
      using handle_record_sim [OF Cons.prems, of X r] by auto
    show ?thesis
      using Cons.IH [OF t2(2,3)] Inr t2(1,4,5)
      by (auto split: sum.splits)
  qed
qed

lemma handle_records_append:
  "handle_records X (xs @ ys) s =
     (case handle_records X xs s of Inl e \<Rightarrow> Inl e | Inr s' \<Rightarrow> handle_records X ys s')"
  by (induction xs arbitrary: s) (auto split: sum.splits)

lemma init_fields [simp]:
  "workflow_run_metrics (init recs) = []" "counted_logs (init recs) = []"
  "records (init recs) = recs" "logged (init recs) = []"
  by (simp_all add: init_def)



lemma length_every_other: "length (every_other xs) = (length xs + 1) div 2"
  by (induction xs rule: every_other.induct) simp_all

lemma length_hex8: "length (hex8 w) = 8"
  by (simp add: hex8_def)

lemma length_sha256_hexdigest: "length (sha256_hexdigest data) = 64"
  by (simp add: sha256_hexdigest_def case_prod_beta length_hex8)


subsection \<open>Counting commutes\<close>

lemma add_to_commute: "add_to k v (add_to k' v' d) = add_to k' v' (add_to k v d)"
  by (induction d) (auto simp add: add_to_def)

lemma map_fst_add_to [simp]: "map fst (add_to k v d) = map fst d"
  by (induction d) (auto simp add: add_to_def)

lemma update_is_add_to:
  "distinct (map fst d) \<Longrightarrow> map_of d k = Some c \<Longrightarrow> AList.update k (c + v) d = add_to k v d"
proof (induction d)
  case Nil
  then show ?case by simp
next
  case (Cons p d)
  obtain k' v' where p: "p = (k', v')" by (cases p)
  show ?case
  proof (cases "k' = k")
    case True
    then have "k \<notin> fst ` set d"
      using Cons.prems(1) p by auto
    then have "add_to k v d = d"
      by (induction d) (auto simp add: add_to_def)
    then show ?thesis
      using True p Cons.prems(2) by (simp add: add_to_def)
  next
    case False
    then show ?thesis
      using Cons p by (simp add: add_to_def)
  qed
qed

lemma counted_commute:
  "counted W S z (counted W' S' z' M) = counted W' S' z' (counted W S z M)"
proof (cases "W = W'")
  case True
  have "add_to (S @ ''_size'') z (add_to (S @ ''_count'') 1
          (add_to (S' @ ''_size'') z' (add_to (S' @ ''_count'') 1 d)))
      = add_to (S' @ ''_size'') z' (add_to (S' @ ''_count'') 1
          (add_to (S @ ''_size'') z (add_to (S @ ''_count'') 1 d)))" for d
    by (metis add_to_commute)
  then show ?thesis
    using True by (simp add: counted_def)
next
  case False
  then show ?thesis
    by (auto simp add: counted_def fun_eq_iff)
qed

lemma distinct_initial_metric: "distinct (map fst initial_metric)"
  by (simp add: initial_metric_def)

lemma add_metric_is_add_to:
  assumes "six_counters m" and "k \<in> fst ` set initial_metric"
  shows "\<exists>m'. add_metric w k v m = Inr m' \<and> six_counters m'
           \<and> map_of m' = (map_of m)(w \<mapsto> add_to k v (delta_of m w))"
proof -
  obtain c where c: "map_of (delta_of m w) k = Some c"
    using counter_present [OF assms] by blast
  obtain m' where m': "add_metric w k v m = Inr m'"
    using add_metric_succeeds [OF c] by blast
  have "distinct (map fst (delta_of m w))"
    using six_counters_delta_of [OF assms(1)] distinct_initial_metric by simp
  then have "AList.update k (c + v) (delta_of m w) = add_to k v (delta_of m w)"
    using c by (rule update_is_add_to)
  then show ?thesis
    using map_of_add_metric [OF m'] c m' six_counters_add_metric [OF assms(1) m'] by auto
qed

lemma count_into_is_counted:
  assumes "six_counters (workflow_run_metrics s)" and "S = REQUESTED \<or> S = STAGED \<or> S = DOWNLOADED"
  shows "\<exists>t. count_into W S z L c s = Inr t \<and> six_counters (workflow_run_metrics t)
           \<and> map_of (workflow_run_metrics t) = counted W S z (map_of (workflow_run_metrics s))"
proof -
  obtain m1 where m1: "add_metric W (S @ ''_count'') 1 (workflow_run_metrics s) = Inr m1"
      "six_counters m1"
      "map_of m1 = (map_of (workflow_run_metrics s))(W \<mapsto>
          add_to (S @ ''_count'') 1 (delta_of (workflow_run_metrics s) W))"
    using add_metric_is_add_to [OF assms(1) status_counters(1) [OF assms(2)]] by blast
  obtain m2 where m2: "add_metric W (S @ ''_size'') z m1 = Inr m2" "six_counters m2"
      "map_of m2 = (map_of m1)(W \<mapsto> add_to (S @ ''_size'') z (delta_of m1 W))"
    using add_metric_is_add_to [OF m1(2) status_counters(2) [OF assms(2)]] by blast
  have "delta_of m1 W = add_to (S @ ''_count'') 1 (delta_of (workflow_run_metrics s) W)"
    by (simp add: delta_of_def m1(3))
  then have "map_of m2 = counted W S z (map_of (workflow_run_metrics s))"
    by (simp add: m2(3) m1(3) counted_def delta_of_def)
  then show ?thesis
    using m1(1) m2(1,2) by (simp add: count_into_def)
qed


lemma handle_record_effect:
  obtains (raises) e where "\<And>s. handle_record X r s = Inl e"
  | (acts) F where "F = (\<lambda>M. M) \<or> (\<exists>W S z. F = counted W S z)"
      "\<And>s. six_counters (workflow_run_metrics s) \<Longrightarrow>
         \<exists>t. handle_record X r s = Inr t \<and> six_counters (workflow_run_metrics t)
           \<and> map_of (workflow_run_metrics t) = F (map_of (workflow_run_metrics s))"
proof (cases rule: handle_record_cases [of X r])
  case (raises e)
  then show ?thesis by (rule that(1))
next
  case (skips L)
  show ?thesis
    by (rule that(2) [of "\<lambda>M. M"]) (simp_all add: skips)
next
  case (counts W S z L c)
  show ?thesis
    by (rule that(2) [of "counted W S z"])
      (auto simp add: counts(2) count_into_is_counted [OF _ counts(1)])
qed

lemma agree_trans: "agree a b \<Longrightarrow> agree b c \<Longrightarrow> agree a c"
  by (auto simp add: agree_def split: sum.splits)

lemma handle_record_agree:
  assumes "six_counters (workflow_run_metrics s)" and "six_counters (workflow_run_metrics s')"
    and "map_of (workflow_run_metrics s) = map_of (workflow_run_metrics s')"
  shows "agree (handle_record X r s) (handle_record X r s')"
proof (cases rule: handle_record_effect [of X r])
  case (raises e)
  then show ?thesis by (simp add: agree_def)
next
  case (acts F)
  show ?thesis
    using acts(2) [OF assms(1)] acts(2) [OF assms(2)] assms(3) by (auto simp add: agree_def)
qed

lemma handle_records_agree:
  assumes "six_counters (workflow_run_metrics s)" and "six_counters (workflow_run_metrics s')"
    and "map_of (workflow_run_metrics s) = map_of (workflow_run_metrics s')"
  shows "agree (handle_records X rs s) (handle_records X rs s')"
  using assms
proof (induction rs arbitrary: s s')
  case Nil
  then show ?case by (simp add: agree_def)
next
  case (Cons r rs)
  have step: "agree (handle_record X r s) (handle_record X r s')"
    using Cons.prems by (rule handle_record_agree)
  show ?case
  proof (cases "handle_record X r s")
    case (Inl e)
    then show ?thesis
      using step by (auto simp add: agree_def split: sum.splits)
  next
    case (Inr t)
    then obtain t' where t': "handle_record X r s' = Inr t'"
        "six_counters (workflow_run_metrics t)" "six_counters (workflow_run_metrics t')"
        "map_of (workflow_run_metrics t) = map_of (workflow_run_metrics t')"
      using step by (auto simp add: agree_def split: sum.splits)
    show ?thesis
      using Cons.IH [OF t'(2,3,4)] by (simp add: Inr t'(1))
  qed
qed

lemma swap_agree:
  assumes "six_counters (workflow_run_metrics s)"
  shows "agree (handle_records X (a # b # rs) s) (handle_records X (b # a # rs) s)"
proof (cases rule: handle_record_effect [of X a])
  case a: (raises e)
  show ?thesis
    by (simp add: a agree_def split: sum.splits)
next
  case a: (acts F)
  show ?thesis
  proof (cases rule: handle_record_effect [of X b])
    case b: (raises e)
    show ?thesis
      by (simp add: b agree_def split: sum.splits)
  next
    case b: (acts G)
    obtain s1 where s1: "handle_record X a s = Inr s1" "six_counters (workflow_run_metrics s1)"
        "map_of (workflow_run_metrics s1) = F (map_of (workflow_run_metrics s))"
      using a(2) [OF assms] by blast
    obtain s2 where s2: "handle_record X b s1 = Inr s2" "six_counters (workflow_run_metrics s2)"
        "map_of (workflow_run_metrics s2) = G (map_of (workflow_run_metrics s1))"
      using b(2) [OF s1(2)] by blast
    obtain u1 where u1: "handle_record X b s = Inr u1" "six_counters (workflow_run_metrics u1)"
        "map_of (workflow_run_metrics u1) = G (map_of (workflow_run_metrics s))"
      using b(2) [OF assms] by blast
    obtain u2 where u2: "handle_record X a u1 = Inr u2" "six_counters (workflow_run_metrics u2)"
        "map_of (workflow_run_metrics u2) = F (map_of (workflow_run_metrics u1))"
      using a(2) [OF u1(2)] by blast
    have "G (F M) = F (G M)" for M
      using a(1) b(1) by (auto simp add: counted_commute)
    then have "map_of (workflow_run_metrics s2) = map_of (workflow_run_metrics u2)"
      by (simp add: s1(3) s2(3) u1(3) u2(3))
    then show ?thesis
      using handle_records_agree [OF s2(2) u2(2), of X rs] by (simp add: s1(1) s2(1) u1(1) u2(1))
  qed
qed


lemma handle_record_six_counters:
  assumes "six_counters (workflow_run_metrics s)" and "handle_record X r s = Inr t"
  shows "six_counters (workflow_run_metrics t)"
  using handle_record_agree [OF assms(1) assms(1) refl, of X r] assms(2)
  by (simp add: agree_def)

lemma bubble_agree:
  assumes "six_counters (workflow_run_metrics s)"
  shows "agree (handle_records X (x # ys1 @ ys2) s) (handle_records X (ys1 @ x # ys2) s)"
  using assms
proof (induction ys1 arbitrary: s)
  case Nil
  show ?case
    using handle_records_agree [OF Nil Nil refl, of X "x # ys2"] by simp
next
  case (Cons y ys1)
  have 1: "agree (handle_records X (x # y # ys1 @ ys2) s) (handle_records X (y # x # ys1 @ ys2) s)"
    using Cons.prems by (rule swap_agree)
  have 2: "agree (handle_records X (y # x # ys1 @ ys2) s) (handle_records X (y # ys1 @ x # ys2) s)"
  proof (cases "handle_record X y s")
    case (Inl e)
    then show ?thesis by (simp add: agree_def)
  next
    case (Inr s1)
    then show ?thesis
      using Cons.IH [OF handle_record_six_counters [OF Cons.prems Inr]] by simp
  qed
  show ?case
    using agree_trans [OF 1 2] by simp
qed

lemma permuted_agree:
  assumes "mset xs = mset ys" and "six_counters (workflow_run_metrics s)"
  shows "agree (handle_records X xs s) (handle_records X ys s)"
  using assms
proof (induction xs arbitrary: ys s)
  case Nil
  then show ?case
    using handle_records_agree [OF Nil(2) Nil(2) refl, of X "[]"] by simp
next
  case (Cons x xs)
  have "x \<in> set ys"
    using Cons.prems(1) by (metis list.set_intros(1) mset_eq_setD)
  then obtain ys1 ys2 where ys: "ys = ys1 @ x # ys2"
    by (auto simp add: in_set_conv_decomp)
  have m: "mset xs = mset (ys1 @ ys2)"
    using Cons.prems(1) ys by simp
  have 1: "agree (handle_records X (x # xs) s) (handle_records X (x # ys1 @ ys2) s)"
  proof (cases "handle_record X x s")
    case (Inl e)
    then show ?thesis by (simp add: agree_def)
  next
    case (Inr s1)
    then show ?thesis
      using Cons.IH [OF m handle_record_six_counters [OF Cons.prems(2) Inr]] by simp
  qed
  have 2: "agree (handle_records X (x # ys1 @ ys2) s) (handle_records X (ys1 @ x # ys2) s)"
    using Cons.prems(2) by (rule bubble_agree)
  show ?case
    using agree_trans [OF 1 2] ys by simp
qed

subsection \<open>The transition classifier\<close>

text \<open>
  C1. A call of \<open>increase_archive_status_metric_counter\<close> whose pair of old and new
  status is none of (none, REQUESTED), (REQUESTED, STAGED), (STAGED, DOWNLOADED) returns
  normally and leaves every counter of every workflow run, and the queue of counted
  entries, as they were. The new status is the last segment of the status of the new
  image between slashes; the old status is none when there is no old image (or an empty
  one), the last segment of the old image's status otherwise. Skipped, backward and
  repeated transitions are among these pairs.
\<close>

theorem unrecognized_transition_changes_no_counter:
  assumes "parse X new_image = Inr new_metadata"
    and "old_status_of X old_image = Inr old_status"
    and "(old_status, last (str_split CHR ''/'' (retrieve_status new_metadata))) \<notin>
           {(None, REQUESTED), (Some REQUESTED, STAGED), (Some STAGED, DOWNLOADED)}"
  shows "\<exists>s'. increase_archive_status_metric_counter X new_image old_image s = Inr s'
           \<and> workflow_run_metrics s' = workflow_run_metrics s
           \<and> counted_logs s' = counted_logs s"
  using assms
  by (auto simp add: increase_archive_status_metric_counter_def status_mapping_def
      split: option.splits)

theorem unrecognized_transition_changes_no_counter_witness:
  "\<exists>s'. increase_archive_status_metric_counter example_deps
     (example_image ''run1'' ''archive-retrieval'' (JInt 2048) (JStr ''a1'') ''status/downloaded'')
     (example_image ''run1'' ''archive-retrieval'' (JInt 2048) (JStr ''a1'') ''status/requested'')
     (init []) = Inr s'
    \<and> workflow_run_metrics s' = workflow_run_metrics (init [])
    \<and> counted_logs s' = counted_logs (init [])"
proof -
  let ?new = "example_image ''run1'' ''archive-retrieval'' (JInt 2048) (JStr ''a1'') ''status/downloaded''"
  let ?old = "example_image ''run1'' ''archive-retrieval'' (JInt 2048) (JStr ''a1'') ''status/requested''"
  have p: "parse example_deps ?new =
      Inr \<lparr>workflow_run = ''run1'', retrieval_type = ''archive-retrieval'', size' = Some 2048,
           archive_id = Some ''a1'', retrieve_status = ''status/downloaded''\<rparr>"
    by (simp add: example_deps_def)
  have q: "old_status_of example_deps ?old = Inr (Some ''requested'')"
    by (simp add: old_status_of_def example_deps_def)
  show ?thesis
    by (rule unrecognized_transition_changes_no_counter [OF p q])
      (simp add: REQUESTED_def STAGED_def DOWNLOADED_def)
qed

text \<open>
  C6. When the new image parses to a snapshot whose retrieval type is not archive
  retrieval, the call returns normally with the controller unchanged: no counter of any
  workflow run changes and nothing is logged, whatever the statuses, the size and the
  archive identifier are.
\<close>

theorem other_retrieval_type_is_skipped_silently:
  assumes "parse X new_image = Inr new_metadata"
    and "retrieval_type new_metadata \<noteq> ARCHIVE_RETRIEVAL X"
  shows "increase_archive_status_metric_counter X new_image old_image s = Inr s"
  using assms by (simp add: increase_archive_status_metric_counter_def)

theorem other_retrieval_type_is_skipped_silently_witness:
  "increase_archive_status_metric_counter example_deps
     (example_image ''run1'' ''inventory-retrieval'' (JInt 1000) (JStr ''a1'') ''x/requested'')
     JNull (init [])
   = Inr (init [])"
proof -
  let ?new = "example_image ''run1'' ''inventory-retrieval'' (JInt 1000) (JStr ''a1'') ''x/requested''"
  have p: "parse example_deps ?new =
      Inr \<lparr>workflow_run = ''run1'', retrieval_type = ''inventory-retrieval'', size' = Some 1000,
           archive_id = Some ''a1'', retrieve_status = ''x/requested''\<rparr>"
    by (simp add: example_deps_def)
  show ?thesis
    by (rule other_retrieval_type_is_skipped_silently [OF p]) (simp add: example_deps_def)
qed

text \<open>
  C10. An archive-retrieval snapshot whose size is 0, or whose archive identifier is the
  empty string, is treated as malformed although the field is present: the call returns
  normally, logs one entry at error level and changes nothing else, so no counter counts
  the record.
\<close>

theorem zero_size_or_empty_id_is_malformed:
  assumes "parse X new_image = Inr new_metadata"
    and "retrieval_type new_metadata = ARCHIVE_RETRIEVAL X"
    and "size' new_metadata = Some 0 \<or> archive_id new_metadata = Some []"
  shows "increase_archive_status_metric_counter X new_image old_image s =
    Inr (s\<lparr>logged := logged s @
      [(ERROR, ''Failed to read archive's metadata from '' @ metadata_str X new_metadata)]\<rparr>)"
  using assms
  by (auto simp add: increase_archive_status_metric_counter_def split: option.splits)

theorem zero_size_or_empty_id_is_malformed_witness:
  "increase_archive_status_metric_counter example_deps
     (example_image ''run1'' ''archive-retrieval'' (JInt 0) (JStr ''a1'') ''requested'')
     JNull (init [])
   = Inr ((init [])\<lparr>logged := logged (init []) @
       [(ERROR, ''Failed to read archive's metadata from run1'')]\<rparr>)"
proof -
  let ?new = "example_image ''run1'' ''archive-retrieval'' (JInt 0) (JStr ''a1'') ''requested''"
  have p: "parse example_deps ?new =
      Inr \<lparr>workflow_run = ''run1'', retrieval_type = ''archive-retrieval'', size' = Some 0,
           archive_id = Some ''a1'', retrieve_status = ''requested''\<rparr>"
    by (simp add: example_deps_def)
  have "increase_archive_status_metric_counter example_deps ?new JNull (init []) =
    Inr ((init [])\<lparr>logged := logged (init []) @
      [(ERROR, ''Failed to read archive's metadata from '' @ metadata_str example_deps
         \<lparr>workflow_run = ''run1'', retrieval_type = ''archive-retrieval'', size' = Some 0,
          archive_id = Some ''a1'', retrieve_status = ''requested''\<rparr>)]\<rparr>)"
    by (rule zero_size_or_empty_id_is_malformed [OF p]) (simp_all add: example_deps_def)
  then show ?thesis
    by (simp add: example_deps_def)
qed

subsection \<open>The metric accumulator\<close>

text \<open>
  C4. When the new image is a valid archive-retrieval snapshot of workflow run W with size
  Z whose transition the table counts as status S, and every delta held so far has the six
  counters, the call returns normally and adds exactly 1 to the counter S\_count of W and
  exactly Z to the counter S\_size of W. The other four counters of W are unchanged, the
  deltas of all other workflow runs are unchanged, and a run touched for the first time
  gets the initial metric (six zeros) with these two additions. A run not touched so far
  reads as the initial metric, as the defaultdict gives it.
\<close>

theorem countable_event_adds_one_and_size:
  assumes p: "parse X new_image = Inr new_metadata"
    and ty: "retrieval_type new_metadata = ARCHIVE_RETRIEVAL X"
    and sz: "size' new_metadata = Some z" "z \<noteq> 0"
    and ai: "archive_id new_metadata = Some a" "a \<noteq> []"
    and os: "old_status_of X old_image = Inr old_status"
    and tr: "map_of status_mapping
               (old_status, last (str_split CHR ''/'' (retrieve_status new_metadata))) = Some S"
    and wf: "six_counters (workflow_run_metrics s)"
  shows "\<exists>s' c1 c2.
           increase_archive_status_metric_counter X new_image old_image s = Inr s'
         \<and> map_of (delta_of (workflow_run_metrics s) (workflow_run new_metadata)) (S @ ''_count'') = Some c1
         \<and> map_of (delta_of (workflow_run_metrics s') (workflow_run new_metadata)) (S @ ''_count'') = Some (c1 + 1)
         \<and> map_of (delta_of (workflow_run_metrics s) (workflow_run new_metadata)) (S @ ''_size'') = Some c2
         \<and> map_of (delta_of (workflow_run_metrics s') (workflow_run new_metadata)) (S @ ''_size'') = Some (c2 + z)
         \<and> (\<forall>k. k \<noteq> S @ ''_count'' \<and> k \<noteq> S @ ''_size'' \<longrightarrow>
               map_of (delta_of (workflow_run_metrics s') (workflow_run new_metadata)) k
               = map_of (delta_of (workflow_run_metrics s) (workflow_run new_metadata)) k)
         \<and> (\<forall>w. w \<noteq> workflow_run new_metadata \<longrightarrow>
               map_of (workflow_run_metrics s') w = map_of (workflow_run_metrics s) w)
         \<and> (map_of (workflow_run_metrics s) (workflow_run new_metadata) = None \<longrightarrow>
               map_of (workflow_run_metrics s') (workflow_run new_metadata)
               = Some (AList.update (S @ ''_size'') z (AList.update (S @ ''_count'') 1 initial_metric)))
         \<and> six_counters (workflow_run_metrics s')"
proof -
  let ?W = "workflow_run new_metadata"
  let ?m = "workflow_run_metrics s"
  have S: "S = REQUESTED \<or> S = STAGED \<or> S = DOWNLOADED"
    using tr by (rule status_mapping_SomeD)
  obtain c1 where c1: "map_of (delta_of ?m ?W) (S @ ''_count'') = Some c1"
    using counter_present [OF wf status_counters(1) [OF S]] by blast
  obtain m1 where m1: "add_metric ?W (S @ ''_count'') 1 ?m = Inr m1"
    using add_metric_succeeds [OF c1] by blast
  have wf1: "six_counters m1"
    using wf m1 by (rule six_counters_add_metric)
  have d1: "delta_of m1 ?W = AList.update (S @ ''_count'') (c1 + 1) (delta_of ?m ?W)"
    and o1: "\<And>w. w \<noteq> ?W \<Longrightarrow> map_of m1 w = map_of ?m w"
    and e1: "map_of m1 ?W = Some (AList.update (S @ ''_count'') (c1 + 1) (delta_of ?m ?W))"
    using delta_of_add_metric [OF m1] map_of_add_metric [OF m1] c1 by auto
  obtain c2 where c2: "map_of (delta_of ?m ?W) (S @ ''_size'') = Some c2"
    using counter_present [OF wf status_counters(2) [OF S]] by blast
  have c2': "map_of (delta_of m1 ?W) (S @ ''_size'') = Some c2"
    using c2 by (simp add: d1 update_conv')
  obtain m2 where m2: "add_metric ?W (S @ ''_size'') z m1 = Inr m2"
    using add_metric_succeeds [OF c2'] by blast
  have wf2: "six_counters m2"
    using wf1 m2 by (rule six_counters_add_metric)
  have d2: "delta_of m2 ?W = AList.update (S @ ''_size'') (c2 + z) (delta_of m1 ?W)"
    and o2: "\<And>w. w \<noteq> ?W \<Longrightarrow> map_of m2 w = map_of m1 w"
    and e2: "map_of m2 ?W = Some (AList.update (S @ ''_size'') (c2 + z) (delta_of m1 ?W))"
    using delta_of_add_metric [OF m2] map_of_add_metric [OF m2] c2' by auto
  have first: "map_of ?m ?W = None \<Longrightarrow> c1 = 0 \<and> c2 = 0 \<and> delta_of ?m ?W = initial_metric"
    using c1 c2 S
    by (auto simp add: delta_of_def initial_metric_def REQUESTED_def STAGED_def DOWNLOADED_def)
  have run: "increase_archive_status_metric_counter X new_image old_image s =
    Inr (s\<lparr>logged := logged s @
            [(DEBUG, ''Archive:'' @ key_pk X ?W a @ '' - handled_status:'' @
               last (str_split CHR ''/'' (retrieve_status new_metadata)))],
          counted_logs := counted_logs s @
            [''Archive:'' @ key_pk X ?W a @ '' - counted_status:'' @
               last (str_split CHR ''/'' (retrieve_status new_metadata))],
          workflow_run_metrics := m2\<rparr>)"
    using p ty sz ai os tr m1 m2
    by (simp add: increase_archive_status_metric_counter_def Let_def)
  show ?thesis
    using run c1 c2 wf2 o1 o2 first
    by (auto simp add: d1 d2 e1 e2 update_conv')
qed

theorem countable_event_adds_one_and_size_witness:
  "\<exists>s'. increase_archive_status_metric_counter example_deps
       (example_image ''run1'' ''archive-retrieval'' (JInt 1000) (JStr ''a1'') ''status/requested'')
       JNull (init []) = Inr s'
     \<and> map_of (workflow_run_metrics s') ''run1'' =
         Some [(''requested_count'', 1), (''requested_size'', 1000),
               (''staged_count'', 0), (''staged_size'', 0),
               (''downloaded_count'', 0), (''downloaded_size'', 0)]"
proof -
  let ?new = "example_image ''run1'' ''archive-retrieval'' (JInt 1000) (JStr ''a1'') ''status/requested''"
  let ?nm = "\<lparr>workflow_run = ''run1'', retrieval_type = ''archive-retrieval'', size' = Some 1000,
           archive_id = Some ''a1'', retrieve_status = ''status/requested''\<rparr>"
  have p: "parse example_deps ?new = Inr ?nm"
    by (simp add: example_deps_def)
  have ty: "retrieval_type ?nm = ARCHIVE_RETRIEVAL example_deps"
    by (simp add: example_deps_def)
  have os: "old_status_of example_deps JNull = Inr None"
    by (simp add: old_status_of_def)
  have tr: "map_of status_mapping (None, last (str_split CHR ''/'' (retrieve_status ?nm)))
      = Some ''requested''"
    by (simp add: status_mapping_def REQUESTED_def STAGED_def DOWNLOADED_def)
  have wf: "six_counters (workflow_run_metrics (init []))"
    by (simp add: init_def six_counters_def)
  have e: "map_of (workflow_run_metrics (init [])) ''run1'' = None"
    by (simp add: init_def)
  show ?thesis
    using countable_event_adds_one_and_size [OF p ty _ _ _ _ os tr wf, of 1000 "''a1''"] e
    by (auto simp add: initial_metric_def)
qed

text \<open>
  C9. A call on a new image whose size, when it has one, is not negative never decreases a
  counter: every counter of every workflow run is, after the call, at least what it was
  before, and when no counter was negative before the call none is after it. A controller
  starts with no delta at all, so through a batch of such images all counters stay
  non-negative.
\<close>

theorem counters_never_decrease:
  assumes run: "increase_archive_status_metric_counter X new_image old_image s = Inr s'"
    and p: "parse X new_image = Inr new_metadata"
    and nn: "\<forall>z. size' new_metadata = Some z \<longrightarrow> 0 \<le> z"
  shows "(\<forall>w k v. map_of (delta_of (workflow_run_metrics s) w) k = Some v \<longrightarrow>
            (\<exists>v'. map_of (delta_of (workflow_run_metrics s') w) k = Some v' \<and> v \<le> v'))
       \<and> (non_negative (workflow_run_metrics s) \<longrightarrow> non_negative (workflow_run_metrics s'))"
proof -
  consider (same) "workflow_run_metrics s' = workflow_run_metrics s"
    | (counted) z rs m1 where "size' new_metadata = Some z"
        "add_metric (workflow_run new_metadata) (rs @ ''_count'') 1 (workflow_run_metrics s) = Inr m1"
        "add_metric (workflow_run new_metadata) (rs @ ''_size'') z m1 = Inr (workflow_run_metrics s')"
    using run p
    by (auto simp add: increase_archive_status_metric_counter_def Let_def
        split: option.splits if_splits sum.splits)
  then show ?thesis
  proof cases
    case same
    then show ?thesis by simp
  next
    case counted
    have z: "0 \<le> z"
      using nn counted(1) by simp
    have mono: "\<exists>v'. map_of (delta_of (workflow_run_metrics s') w) k = Some v' \<and> v \<le> v'"
      if h: "map_of (delta_of (workflow_run_metrics s) w) k = Some v" for w k v
    proof -
      obtain v1 where v1: "map_of (delta_of m1 w) k = Some v1" "v \<le> v1"
        using add_metric_mono [OF counted(2) _ h] by auto
      obtain v2 where "map_of (delta_of (workflow_run_metrics s') w) k = Some v2" "v1 \<le> v2"
        using add_metric_mono [OF counted(3) z v1(1)] by auto
      then show ?thesis
        using v1(2) by auto
    qed
    have "non_negative (workflow_run_metrics s')" if "non_negative (workflow_run_metrics s)"
      using add_metric_non_negative [OF add_metric_non_negative [OF that _ counted(2)] z counted(3)]
      by simp
    then show ?thesis
      using mono by blast
  qed
qed

theorem counters_never_decrease_witness:
  "map_of (delta_of [] ''run1'') ''requested_size'' = Some 0
   \<and> (\<exists>v'. map_of (delta_of
          [(''run1'', [(''requested_count'', 1), (''requested_size'', 1000),
                       (''staged_count'', 0), (''staged_size'', 0),
                       (''downloaded_count'', 0), (''downloaded_size'', 0)])] ''run1'')
          ''requested_size'' = Some v'
         \<and> 0 \<le> v')
   \<and> non_negative []
   \<and> non_negative
          [(''run1'', [(''requested_count'', 1), (''requested_size'', 1000),
                       (''staged_count'', 0), (''staged_size'', 0),
                       (''downloaded_count'', 0), (''downloaded_size'', 0)])]"
proof -
  let ?new = "example_image ''run1'' ''archive-retrieval'' (JInt 1000) (JStr ''a1'') ''status/requested''"
  let ?nm = "\<lparr>workflow_run = ''run1'', retrieval_type = ''archive-retrieval'', size' = Some 1000,
           archive_id = Some ''a1'', retrieve_status = ''status/requested''\<rparr>"
  let ?s' = "(init [])\<lparr>logged := [(DEBUG, ''Archive:run1|a1 - handled_status:requested'')],
      counted_logs := [''Archive:run1|a1 - counted_status:requested''],
      workflow_run_metrics :=
        [(''run1'', [(''requested_count'', 1), (''requested_size'', 1000),
                     (''staged_count'', 0), (''staged_size'', 0),
                     (''downloaded_count'', 0), (''downloaded_size'', 0)])]\<rparr>"
  have p: "parse example_deps ?new = Inr ?nm"
    by (simp add: example_deps_def)
  have run: "increase_archive_status_metric_counter example_deps ?new JNull (init []) = Inr ?s'"
    by (simp add: increase_archive_status_metric_counter_def example_deps_def old_status_of_def
        status_mapping_def REQUESTED_def STAGED_def DOWNLOADED_def add_metric_def
        initial_metric_def init_def Let_def)
  have nn: "\<forall>z. size' ?nm = Some z \<longrightarrow> 0 \<le> z"
    by simp
  have z: "map_of (delta_of [] ''run1'') ''requested_size'' = Some 0"
    by (simp add: delta_of_def initial_metric_def)
  have e: "non_negative []"
    by (simp add: non_negative_def)
  show ?thesis
    using counters_never_decrease [OF run p nn] z e by (simp add: init_def)
qed

text \<open>
  C3. Processing a batch and processing any permutation of it have the same outcome: when
  one raises so does the other, and when one returns, the other returns too and the two
  final mappings from workflow runs to deltas are the same mapping, every workflow run with
  the same six counter values. (The two dictionaries can differ in the order in which the
  workflow runs were inserted.)
\<close>

theorem permuted_batch_same_deltas:
  assumes "mset recs' = mset recs"
  shows "(case handle_records X recs (init recs) of
            Inl e \<Rightarrow> (\<exists>e'. handle_records X recs' (init recs') = Inl e')
          | Inr t \<Rightarrow> (\<exists>t'. handle_records X recs' (init recs') = Inr t'
                \<and> (\<forall>w. map_of (workflow_run_metrics t') w = map_of (workflow_run_metrics t) w)))"
proof -
  have six: "six_counters (workflow_run_metrics (init recs))"
    by (simp add: six_counters_def)
  have a: "agree (handle_records X recs (init recs)) (handle_records X recs' (init recs))"
    using assms six by (intro permuted_agree) simp_all
  have b: "case handle_records X recs' (init recs) of
            Inl e \<Rightarrow> handle_records X recs' (init recs') = Inl e
          | Inr t \<Rightarrow> (\<exists>t2. handle_records X recs' (init recs') = Inr t2
                \<and> workflow_run_metrics t2 = workflow_run_metrics t
                \<and> counted_logs t2 = counted_logs t
                \<and> records t2 = records (init recs')
                \<and> set (logged (init recs')) \<subseteq> set (logged t2))"
    by (rule handle_records_sim) simp_all
  show ?thesis
    using a b by (auto simp add: agree_def split: sum.splits)
qed

theorem permuted_batch_same_deltas_witness:
  "\<exists>t'. handle_records example_deps
       [example_insert (example_image ''run2'' ''archive-retrieval'' (JInt 500) (JStr ''b1'') ''requested''),
        example_insert (example_image ''run1'' ''archive-retrieval'' (JInt 1000) (JStr ''a1'') ''requested'')]
       (init
         [example_insert (example_image ''run2'' ''archive-retrieval'' (JInt 500) (JStr ''b1'') ''requested''),
          example_insert (example_image ''run1'' ''archive-retrieval'' (JInt 1000) (JStr ''a1'') ''requested'')])
     = Inr t'
   \<and> (\<forall>w. map_of (workflow_run_metrics t') w =
        map_of
          [(''run1'', [(''requested_count'', 1), (''requested_size'', 1000),
                       (''staged_count'', 0), (''staged_size'', 0),
                       (''downloaded_count'', 0), (''downloaded_size'', 0)]),
           (''run2'', [(''requested_count'', 1), (''requested_size'', 500),
                       (''staged_count'', 0), (''staged_size'', 0),
                       (''downloaded_count'', 0), (''downloaded_size'', 0)])] w)"
proof -
  let ?a = "example_insert (example_image ''run1'' ''archive-retrieval'' (JInt 1000) (JStr ''a1'') ''requested'')"
  let ?b = "example_insert (example_image ''run2'' ''archive-retrieval'' (JInt 500) (JStr ''b1'') ''requested'')"
  let ?t = "(init [?a, ?b])\<lparr>logged := [(DEBUG, ''Archive:run1|a1 - handled_status:requested''),
        (DEBUG, ''Archive:run2|b1 - handled_status:requested'')],
      counted_logs := [''Archive:run1|a1 - counted_status:requested'',
        ''Archive:run2|b1 - counted_status:requested''],
      workflow_run_metrics :=
        [(''run1'', [(''requested_count'', 1), (''requested_size'', 1000),
                     (''staged_count'', 0), (''staged_size'', 0),
                     (''downloaded_count'', 0), (''downloaded_size'', 0)]),
         (''run2'', [(''requested_count'', 1), (''requested_size'', 500),
                     (''staged_count'', 0), (''staged_size'', 0),
                     (''downloaded_count'', 0), (''downloaded_size'', 0)])]\<rparr>"
  have run: "handle_records example_deps [?a, ?b] (init [?a, ?b]) = Inr ?t"
    by (simp add: increase_archive_status_metric_counter_def example_deps_def old_status_of_def
        status_mapping_def REQUESTED_def STAGED_def DOWNLOADED_def add_metric_def
        initial_metric_def Let_def)
  have m: "mset [?b, ?a] = mset [?a, ?b]"
    by simp
  show ?thesis
    using permuted_batch_same_deltas [OF m, of example_deps] unfolding run by simp
qed

subsection \<open>Malformed events\<close>

text \<open>
  C5. Take a batch that processes without an exception and put into it, at any place, one
  more event of the stream (an INSERT, or a MODIFY that has an old image) whose new image
  parses to an archive-retrieval snapshot with no size or no archive identifier. The
  batch with the malformed event also processes without an exception, its per-workflow
  deltas and its queue of counted entries are exactly those of the batch without it, and
  an entry at error level naming the snapshot has been logged.
\<close>

theorem malformed_event_is_skipped:
  assumes src: "dict_get e ''eventSource'' = Some (JStr ''aws:dynamodb'')"
    and d: "subscript (JDict e) ''dynamodb'' = Inr d"
    and n: "subscript d ''NewImage'' = Inr new_image"
    and kind: "dict_get e ''eventName'' = Some (JStr ''INSERT'')
        \<or> dict_get e ''eventName'' = Some (JStr ''MODIFY'')
          \<and> (\<exists>old_image. subscript d ''OldImage'' = Inr old_image)"
    and p: "parse X new_image = Inr new_metadata"
    and ty: "retrieval_type new_metadata = ARCHIVE_RETRIEVAL X"
    and bad: "size' new_metadata = None \<or> archive_id new_metadata = None"
    and ok: "handle_records X (xs @ ys) (init (xs @ ys)) = Inr t"
  shows "\<exists>t'. handle_records X (xs @ e # ys) (init (xs @ e # ys)) = Inr t'
           \<and> workflow_run_metrics t' = workflow_run_metrics t
           \<and> counted_logs t' = counted_logs t
           \<and> (ERROR, ''Failed to read archive's metadata from '' @ metadata_str X new_metadata)
                \<in> set (logged t')"
proof -
  let ?err = "(ERROR, ''Failed to read archive's metadata from '' @ metadata_str X new_metadata)"
  have inc: "increase_archive_status_metric_counter X new_image old s =
      Inr (s\<lparr>logged := logged s @ [?err]\<rparr>)" for old s
    using p ty bad
    by (auto simp add: increase_archive_status_metric_counter_def split: option.splits)
  have e: "handle_record X e s = Inr (s\<lparr>logged := logged s @ [?err]\<rparr>)" for s
    using src d n kind by (auto simp add: handle_record_def inc)
  obtain s1 where s1: "handle_records X xs (init (xs @ ys)) = Inr s1"
    and t: "handle_records X ys s1 = Inr t"
    using ok by (auto simp add: handle_records_append split: sum.splits)
  obtain s1' where s1': "handle_records X xs (init (xs @ e # ys)) = Inr s1'"
    "workflow_run_metrics s1' = workflow_run_metrics s1" "counted_logs s1' = counted_logs s1"
    using handle_records_sim [of "init (xs @ e # ys)" "init (xs @ ys)" X xs] s1 by auto
  let ?s2 = "s1'\<lparr>logged := logged s1' @ [?err]\<rparr>"
  obtain t' where t': "handle_records X ys ?s2 = Inr t'"
    "workflow_run_metrics t' = workflow_run_metrics t" "counted_logs t' = counted_logs t"
    "set (logged ?s2) \<subseteq> set (logged t')"
    using handle_records_sim [of ?s2 s1 X ys] s1'(2,3) t by auto
  have "handle_records X (xs @ e # ys) (init (xs @ e # ys)) = Inr t'"
    using s1'(1) e t'(1) by (simp add: handle_records_append)
  then show ?thesis
    using t'(2,3,4) by auto
qed

theorem malformed_event_is_skipped_witness:
  "\<exists>t'. handle_records example_deps
       [example_insert (example_image ''run1'' ''archive-retrieval'' (JInt 1000) (JStr ''a1'') ''status/requested''),
        example_insert (example_image ''run1'' ''archive-retrieval'' JNull (JStr ''a2'') ''status/requested'')]
       (init
         [example_insert (example_image ''run1'' ''archive-retrieval'' (JInt 1000) (JStr ''a1'') ''status/requested''),
          example_insert (example_image ''run1'' ''archive-retrieval'' JNull (JStr ''a2'') ''status/requested'')])
     = Inr t'
   \<and> workflow_run_metrics t' =
       [(''run1'', [(''requested_count'', 1), (''requested_size'', 1000),
                    (''staged_count'', 0), (''staged_size'', 0),
                    (''downloaded_count'', 0), (''downloaded_size'', 0)])]
   \<and> counted_logs t' = [''Archive:run1|a1 - counted_status:requested'']
   \<and> (ERROR, ''Failed to read archive's metadata from run1'') \<in> set (logged t')"
proof -
  let ?good = "example_image ''run1'' ''archive-retrieval'' (JInt 1000) (JStr ''a1'') ''status/requested''"
  let ?bad = "example_image ''run1'' ''archive-retrieval'' JNull (JStr ''a2'') ''status/requested''"
  let ?nm = "\<lparr>workflow_run = ''run1'', retrieval_type = ''archive-retrieval'', size' = None,
           archive_id = Some ''a2'', retrieve_status = ''status/requested''\<rparr>"
  let ?t = "(init ([example_insert ?good] @ []))\<lparr>logged := [(DEBUG, ''Archive:run1|a1 - handled_status:requested'')],
      counted_logs := [''Archive:run1|a1 - counted_status:requested''],
      workflow_run_metrics :=
        [(''run1'', [(''requested_count'', 1), (''requested_size'', 1000),
                     (''staged_count'', 0), (''staged_size'', 0),
                     (''downloaded_count'', 0), (''downloaded_size'', 0)])]\<rparr>"
  have src: "dict_get (example_insert ?bad) ''eventSource'' = Some (JStr ''aws:dynamodb'')"
    by (simp add: example_insert_def dict_get_def)
  have d: "subscript (JDict (example_insert ?bad)) ''dynamodb'' = Inr (JDict [(''NewImage'', ?bad)])"
    by (simp add: example_insert_def)
  have n: "subscript (JDict [(''NewImage'', ?bad)]) ''NewImage'' = Inr ?bad"
    by simp
  have kind: "dict_get (example_insert ?bad) ''eventName'' = Some (JStr ''INSERT'')
      \<or> dict_get (example_insert ?bad) ''eventName'' = Some (JStr ''MODIFY'')
        \<and> (\<exists>old_image. subscript (JDict [(''NewImage'', ?bad)]) ''OldImage'' = Inr old_image)"
    by (simp add: example_insert_def dict_get_def)
  have p: "parse example_deps ?bad = Inr ?nm"
    by (simp add: example_deps_def)
  have ty: "retrieval_type ?nm = ARCHIVE_RETRIEVAL example_deps"
    by (simp add: example_deps_def)
  have bad: "size' ?nm = None \<or> archive_id ?nm = None"
    by simp
  have ok: "handle_records example_deps ([example_insert ?good] @ []) (init ([example_insert ?good] @ [])) = Inr ?t"
    by (simp add: increase_archive_status_metric_counter_def example_deps_def old_status_of_def
        status_mapping_def REQUESTED_def STAGED_def DOWNLOADED_def add_metric_def
        initial_metric_def Let_def)
  show ?thesis
    using malformed_event_is_skipped [OF src d n kind p ty bad ok] by (simp add: example_deps_def)
qed

subsection \<open>The committer\<close>




subsection \<open>A batch of one insert, end to end\<close>

text \<open>
  The item built for one workflow run, and the whole of \<open>handle_archive_status_changed\<close>
  on a batch of one INSERT with status requested and size 1000, with a client that is
  created and records the keys and the token of each submission: one submission for the run, with the token of
  the batch, and the counted entry logged after it.
\<close>

lemma transact_items_example:
  "transact_items_of example_deps
     [(''run1'', [(''requested_count'', 1), (''requested_size'', 1000),
                  (''staged_count'', 0), (''staged_size'', 0),
                  (''downloaded_count'', 0), (''downloaded_size'', 0)])] []
   = Inr [\<lparr>TableName = ''metric_table'', Key_pk = ''run1'',
           UpdateExpression =
             ''ADD count_requested :update_requested_count, size_requested :update_requested_size, ''
             @ ''count_staged :update_staged_count, size_staged :update_staged_size, ''
             @ ''count_downloaded :update_downloaded_count, size_downloaded :update_downloaded_size'',
           ExpressionAttributeValues =
             [('':update_requested_count'', ''1''), ('':update_requested_size'', ''1000''),
              ('':update_staged_count'', ''0''), ('':update_staged_size'', ''0''),
              ('':update_downloaded_count'', ''0''), ('':update_downloaded_size'', ''0'')]\<rparr>]"
  by code_simp

lemma single_insert_is_committed:
  "handle_archive_status_changed example_deps
     (Inr (\<lambda>items token db. Inr (db @ [(map Key_pk items, token)])))
     (init [example_insert (example_image ''run1'' ''archive-retrieval'' (JInt 1000) (JStr ''a1'') ''requested'')])
     []
   = Inr
      ((init [example_insert (example_image ''run1'' ''archive-retrieval'' (JInt 1000) (JStr ''a1'') ''requested'')])
         \<lparr>logged := [(DEBUG, ''Archive:run1|a1 - handled_status:requested''),
                     (INFO, ''Archive:run1|a1 - counted_status:requested'')],
          counted_logs := [''Archive:run1|a1 - counted_status:requested''],
          workflow_run_metrics :=
            [(''run1'', [(''requested_count'', 1), (''requested_size'', 1000),
                         (''staged_count'', 0), (''staged_size'', 0),
                         (''downloaded_count'', 0), (''downloaded_size'', 0)])]\<rparr>,
       [([''run1''],
         generate_client_request_token
           [example_insert (example_image ''run1'' ''archive-retrieval'' (JInt 1000) (JStr ''a1'') ''requested'')])])"
proof -
  let ?recs = "[example_insert (example_image ''run1'' ''archive-retrieval'' (JInt 1000) (JStr ''a1'') ''requested'')]"
  let ?m = "[(''run1'', [(''requested_count'', 1::int), (''requested_size'', 1000),
                         (''staged_count'', 0), (''staged_size'', 0),
                         (''downloaded_count'', 0), (''downloaded_size'', 0)])]"
  have run: "handle_records example_deps ?recs (init ?recs) =
      Inr ((init ?recs)\<lparr>logged := [(DEBUG, ''Archive:run1|a1 - handled_status:requested'')],
          counted_logs := [''Archive:run1|a1 - counted_status:requested''],
          workflow_run_metrics := ?m\<rparr>)"
    by (simp add: increase_archive_status_metric_counter_def example_deps_def old_status_of_def
        status_mapping_def REQUESTED_def STAGED_def DOWNLOADED_def add_metric_def
        initial_metric_def Let_def)
  have token: "client_request_token (init ?recs) = generate_client_request_token ?recs"
    by (simp add: init_def)
  show ?thesis
    unfolding handle_archive_status_changed_def init_fields run
    by (simp add: update_metric_query_def transact_items_example token
        del: transact_items_of.simps)
qed

subsection \<open>The idempotency token\<close>

lemma every_other_nth:
  "i < (length xs + 1) div 2 \<Longrightarrow> every_other xs ! i = xs ! (2 * i)"
proof (induction xs arbitrary: i rule: every_other.induct)
  case 1
  then show ?case by simp
next
  case (2 x)
  then show ?case by simp
next
  case (3 x y xs)
  then show ?case by (cases i) simp_all
qed

lemma every_other_eq_map:
  "every_other xs = map (\<lambda>i. xs ! (2 * i)) [0..<(length xs + 1) div 2]"
  by (rule nth_equalityI) (simp_all add: length_every_other every_other_nth)

lemma drop_eq_map: "drop n xs = map (\<lambda>j. xs ! (n + j)) [0..<length xs - n]"
  by (rule nth_equalityI) simp_all

lemma token_of_digest:
  assumes "length D = 64"
  shows "length (every_other D @ drop (length D - 4) D) = 36"
    and "take 32 (every_other D @ drop (length D - 4) D) = map (\<lambda>i. D ! (2 * i)) [0..<32]"
    and "drop 32 (every_other D @ drop (length D - 4) D) = map (\<lambda>j. D ! (60 + j)) [0..<4]"
proof -
  have e: "every_other D = map (\<lambda>i. D ! (2 * i)) [0..<32]"
    using assms by (simp add: every_other_eq_map)
  have d: "drop (length D - 4) D = map (\<lambda>j. D ! (60 + j)) [0..<4]"
    using assms by (simp add: drop_eq_map)
  have l: "length (every_other D) = 32"
    using assms by (simp add: length_every_other)
  show "length (every_other D @ drop (length D - 4) D) = 36"
    using assms l by simp
  show "take 32 (every_other D @ drop (length D - 4) D) = map (\<lambda>i. D ! (2 * i)) [0..<32]"
    using l e by simp
  show "drop 32 (every_other D @ drop (length D - 4) D) = map (\<lambda>j. D ! (60 + j)) [0..<4]"
    using l d by simp
qed

lemma map_eq_if_list_all2:
  "list_all2 (\<lambda>x y. f x = f y) xs ys \<Longrightarrow> map f xs = map f ys"
  by (induction rule: list_all2_induct) simp_all

lemma map_by_keys:
  assumes "distinct (map fst s)"
  shows "map g s = map (\<lambda>k. g (k, the (map_of s k))) (map fst s)"
  using assms by (auto simp add: comp_def)

lemma sorted_items:
  assumes "distinct (map fst d)"
  shows "map g (sort_key fst d)
     = map (\<lambda>k. g (k, the (map_of d k))) (map fst (sort_key fst d))"
proof -
  have dist: "distinct (map fst (sort_key fst d))"
    using assms by (metis distinct_map distinct_sort set_sort)
  have "map_of (sort_key fst d) = map_of d"
    using dist assms by (simp add: map_of_inject_set)
  then show ?thesis
    using map_by_keys [OF dist, of g] by simp
qed

lemma sorted_keys_unique:
  assumes "distinct (map fst d)" and "distinct (map fst d')"
    and "set (map fst d) = set (map fst d')"
  shows "map fst (sort_key fst d) = map fst (sort_key fst d')"
proof (rule sorted_distinct_set_unique)
  show "sorted (map fst (sort_key fst d))" "sorted (map fst (sort_key fst d'))"
    by (rule sorted_sort_key)+
  show "distinct (map fst (sort_key fst d))"
    using assms(1) by (metis distinct_map distinct_sort set_sort)
  show "distinct (map fst (sort_key fst d'))"
    using assms(2) by (metis distinct_map distinct_sort set_sort)
  show "set (map fst (sort_key fst d)) = set (map fst (sort_key fst d'))"
    using assms(3) by simp
qed

lemma dumps_same_content:
  "distinct_keys a \<Longrightarrow> distinct_keys b \<Longrightarrow> same_content a b \<Longrightarrow> dumps a = dumps b"
proof (induction a b rule: same_content.induct)
  case (1 xs ys)
  have "list_all2 (\<lambda>x y. dumps x = dumps y) xs ys"
    using "1.prems"(3) "1.IH" "1.prems"(1,2)
    by (auto intro: list_all2_mono elim!: list.rel_mono_strong)
  then show ?case
    by (simp add: map_eq_if_list_all2)
next
  case (2 d d')
  have dd: "distinct (map fst d)" "distinct (map fst d')"
    and keys: "set (map fst d) = set (map fst d')"
    using "2.prems" by simp_all
  have val: "dumps (the (map_of d k)) = dumps (the (map_of d' k))"
    if k: "k \<in> set (map fst d)" for k
  proof -
    obtain v where v: "(k, v) \<in> set d"
      using k by auto
    then have mv: "map_of d k = Some v"
      using dd(1) by simp
    obtain v' where v': "map_of d' k = Some v'" "same_content v v'"
      using "2.prems"(3) v by (auto split: option.splits)
    have "(k, v') \<in> set d'"
      using v'(1) by (rule map_of_SomeD)
    then have "distinct_keys v" "distinct_keys v'"
      using "2.prems"(1,2) v by auto
    then have "dumps v = dumps v'"
      using "2.IH" [OF v refl v'(1)] v'(2) by simp
    then show ?thesis
      by (simp add: mv v'(1))
  qed
  have K: "map fst (sort_key fst d) = map fst (sort_key fst d')"
    using dd keys by (rule sorted_keys_unique)
  have "map (\<lambda>(k, v). encode_basestring_ascii k @ '': '' @ dumps v) (sort_key fst d)
      = map (\<lambda>k. encode_basestring_ascii k @ '': '' @ dumps (the (map_of d k)))
          (map fst (sort_key fst d))"
    using sorted_items [OF dd(1), of "\<lambda>(k, v). encode_basestring_ascii k @ '': '' @ dumps v"]
    by simp
  also have "\<dots> = map (\<lambda>k. encode_basestring_ascii k @ '': '' @ dumps (the (map_of d' k)))
          (map fst (sort_key fst d))"
    using val by (auto simp del: map_map)
  also have "\<dots> = map (\<lambda>(k, v). encode_basestring_ascii k @ '': '' @ dumps v) (sort_key fst d')"
    using sorted_items [OF dd(2), of "\<lambda>(k, v). encode_basestring_ascii k @ '': '' @ dumps v"] K
    by simp
  finally show ?case
    by simp
qed simp_all

lemma same_content_refl: "distinct_keys a \<Longrightarrow> same_content a a"
proof (induction a)
  case (JList xs)
  then show ?case
    by (auto simp add: list_all2_same)
next
  case (JDict d)
  then show ?case
    by (fastforce simp add: snds.simps)
qed simp_all

text \<open>
  C2. The token is a function of the batch alone, so two calls on one batch give the same
  token. Two batches of decoded records (no key twice in a dictionary) that have the same
  content up to the order in which keys were inserted into their dictionaries, at any
  depth, serialize to the same text under \<^verbatim>\<open>sort_keys=True\<close> and so have equal tokens.
  A batch has the same content as itself, which is the first statement again.
\<close>

theorem token_ignores_key_order:
  assumes "same_content (JList (map JDict B1)) (JList (map JDict B2))"
    and "distinct_keys (JList (map JDict B1))" and "distinct_keys (JList (map JDict B2))"
  shows "generate_client_request_token B1 = generate_client_request_token B2"
proof -
  have "dumps (JList (map JDict B1)) = dumps (JList (map JDict B2))"
    using assms(2,3,1) by (rule dumps_same_content)
  then show ?thesis
    unfolding generate_client_request_token_def by (simp only:)
qed

theorem token_ignores_key_order_witness:
  "generate_client_request_token
     [[(''eventName'', JStr ''INSERT''), (''dynamodb'', JDict [(''b'', JInt 1), (''a'', JNull)])]]
   = generate_client_request_token
     [[(''dynamodb'', JDict [(''a'', JNull), (''b'', JInt 1)]), (''eventName'', JStr ''INSERT'')]]"
  by (rule token_ignores_key_order) (simp_all add: insert_commute)

text \<open>
  C8. For every batch, the empty one included, the SHA-256 hex digest of the serialized
  batch has 64 characters and the token has exactly 36: its first 32 characters are the
  characters of the digest at the even positions 0, 2, ..., 62 (every second character),
  its last four are the characters of the digest at positions 60 to 63 (the last four).
\<close>

theorem token_has_36_characters:
  "length (sha256_hexdigest (encode (dumps (JList (map JDict recs))))) = 64
   \<and> length (generate_client_request_token recs) = 36
   \<and> take 32 (generate_client_request_token recs)
       = map (\<lambda>i. sha256_hexdigest (encode (dumps (JList (map JDict recs)))) ! (2 * i)) [0..<32]
   \<and> drop 32 (generate_client_request_token recs)
       = map (\<lambda>j. sha256_hexdigest (encode (dumps (JList (map JDict recs)))) ! (60 + j)) [0..<4]"
  unfolding generate_client_request_token_def Let_def
  by (intro conjI length_sha256_hexdigest token_of_digest)

end
